theory Spec2Isabelle
  imports Main
begin

section \<open>The run command of the scenario runner (src/commands/run.ts)\<close>

text \<open>
  The development embeds the second, current \<open>Run\<close> class of \<open>src/commands/run.ts\<close>
  (\<open>run\<close>, \<open>finally\<close>, \<open>parseTokens\<close>, \<open>parseScenarioFiles\<close>).  Promises that are awaited one
  after the other become ordinary sequential evaluation; a rejected promise or a thrown
  value becomes an error result.  Collaborators whose code is not part of the sources
  (the step execution engine \<open>runStep\<close>/\<open>runSteps\<close>, the \<open>Scenario\<close> constructor, the
  \<open>CogManager\<close>, the file system) are parameters, collected in the record \<open>env\<close>.
  Debug logging (\<open>logDebug\<close>) and terminal colours (\<open>chalk\<close>) are left out.
\<close>

subsection \<open>JavaScript values\<close>

text \<open>A field that holds either one value or an \<open>Array\<close> of values (\<open>x instanceof Array\<close>).\<close>

datatype 'a field = One 'a | Many "'a list"

text \<open>\<open>xs[0]\<close>: the first element, \<open>None\<close> standing for \<open>undefined\<close>.\<close>

fun first :: "'a list \<Rightarrow> 'a option" where
  "first [] = None"
| "first (x # xs) = Some x"

text \<open>\<open>v instanceof Array ? v[0] : v\<close>\<close>

fun firstOf :: "'a field \<Rightarrow> 'a option" where
  "firstOf (One x) = Some x"
| "firstOf (Many xs) = first xs"

text \<open>Truthiness of a string, and of a possibly undefined string.\<close>

definition truthy :: "string option \<Rightarrow> bool" where
  "truthy v = (case v of None \<Rightarrow> False | Some s \<Rightarrow> s \<noteq> [])"

text \<open>
  \<open>s.split(c)\<close> for a one-character separator: the pieces between the separators, always
  at least one piece.  \<open>s.split(c, n)\<close> keeps the first \<open>n\<close> pieces.
\<close>

fun splitAll :: "char \<Rightarrow> string \<Rightarrow> string list" where
  "splitAll c [] = [[]]"
| "splitAll c (x # xs) =
     (if x = c then [] # splitAll c xs
      else (case splitAll c xs of
              [] \<Rightarrow> [[x]]
            | p # ps \<Rightarrow> (x # p) # ps))"

definition split :: "char \<Rightarrow> nat \<Rightarrow> string \<Rightarrow> string list" where
  "split c n s = take n (splitAll c s)"

text \<open>\<open>xs[i]\<close> on an Array, \<open>undefined\<close> out of range.\<close>

definition at :: "'a list \<Rightarrow> nat \<Rightarrow> 'a option" where
  "at xs i = (if i < length xs then Some (xs ! i) else None)"

subsection \<open>Errors\<close>

text \<open>
  What setup code throws.  \<open>AuthenticationError\<close> and \<open>MissingStepError\<close> are classes of the
  repository whose code is not in the sources: the string they carry is the text that
  \<open>`${e}`\<close> renders, and \<open>AuthenticationError\<close> also has its optional \<open>helpUrl\<close>.
\<close>

datatype thrown =
    Error string
  | TypeError string
  | AuthenticationError string "string option"
  | MissingStepError string

fun toString :: "thrown \<Rightarrow> string" where
  "toString (Error m) = (if m = [] then ''Error'' else ''Error: '' @ m)"
| "toString (TypeError m) = (if m = [] then ''TypeError'' else ''TypeError: '' @ m)"
| "toString (AuthenticationError t h) = t"
| "toString (MissingStepError t) = t"

subsection \<open>Steps, plans and scenarios\<close>

text \<open>
  A runner step as the coordinator reads it.  \<open>'p\<close> is a reference to a protocol step
  object, \<open>'c\<close> a client handle.  \<open>client\<close> is the handle as attached by
  \<open>decorateStepsWithClients\<close> before the plan is walked.
\<close>

record ('p, 'c) RunnerStep =
  cog :: string
  protoSteps :: "'p field"
  stepText :: "string field"
  client :: 'c
  waitFor :: "nat list"
  failAfter :: "nat list"

text \<open>
  The object handed to \<open>new RunnerStep\<close> for a group (lines 228-236); entries can be
  \<open>undefined\<close>.  The constructor is not in the sources, so the merged step is represented
  by the options it is built from.
\<close>

record ('p, 'c) StepOptions =
  optCog :: string
  optProtoSteps :: "'p option list"
  optStepText :: "string option list"
  optClient :: 'c
  optWaitFor :: "nat option list"
  optFailAfter :: "nat option list"

text \<open>An element of \<open>scenario.optimizedSteps\<close>: \<open>RunnerStep | RunnerStep[]\<close>.\<close>

datatype ('p, 'c) plan_element =
    Single "('p, 'c) RunnerStep"
  | Group "('p, 'c) RunnerStep list"

record ('p, 'c) Scenario =
  name :: string
  scenarioFile :: string
  steps :: "('p, 'c) RunnerStep list"
  optimizedSteps :: "('p, 'c) plan_element list"

datatype Outcome = PASSED | FAILED | ERROR

datatype RunStepResponse = RunStepResponse (getOutcome: Outcome)

text \<open>
  What the \<open>catch (e)\<close> of a plan element can receive: an \<open>Array\<close> of responses, or
  anything else.
\<close>

datatype rejection = RejectedArray "RunStepResponse list" | RejectedOther

datatype ('p, 'c) invocation =
    RunStep "('p, 'c) RunnerStep"
  | RunSteps "('p, 'c) StepOptions"

subsection \<open>Timer\<close>

text \<open>
  Modelled from the spec: \<open>services/timer\<close> is not in the sources.  The spec gives the
  Timer counters for passed, failed and skipped step-units; the \<open>add\<close> methods add their
  argument, one unit when called without an argument.
\<close>

record Timer =
  passed :: nat
  failed :: nat
  skipped :: nat

definition newTimer :: Timer where
  "newTimer = \<lparr>passed = 0, failed = 0, skipped = 0\<rparr>"

definition addPassedStep :: "nat \<Rightarrow> Timer \<Rightarrow> Timer" where
  "addPassedStep n t = t\<lparr>passed := passed t + n\<rparr>"

definition addFailedStep :: "nat \<Rightarrow> Timer \<Rightarrow> Timer" where
  "addFailedStep n t = t\<lparr>failed := failed t + n\<rparr>"

definition addSkippedStep :: "nat \<Rightarrow> Timer \<Rightarrow> Timer" where
  "addSkippedStep n t = t\<lparr>skipped := skipped t + n\<rparr>"

subsection \<open>Process state and collaborators\<close>

datatype printed =
    Line string
  | SkipMark "string field"
  | Url string string
  | PrintTime Timer
  | PrintOverallTime Timer
  | TeardownWarning string

text \<open>A live connector session: the connector and whether its process stops cleanly.\<close>

record session =
  sessionCog :: string
  stopsCleanly :: bool

text \<open>
  \<open>exitCode\<close> is \<open>process.exitCode\<close> (\<open>None\<close>: never assigned, exit status 0), \<open>out\<close> what
  \<open>this.log\<close> and the helpers printing through it wrote, \<open>invoked\<close> the calls made to the
  step execution engine, \<open>sessions\<close> the sessions the \<open>CogManager\<close> holds and
  \<open>stopAllCogsCalls\<close> how often \<open>stopAllCogs\<close> was called.
\<close>

record ('p, 'c) state =
  exitCode :: "nat option"
  out :: "printed list"
  invoked :: "('p, 'c) invocation list"
  sessions :: "session list"
  stopAllCogsCalls :: nat

definition initial :: "('p, 'c) state" where
  "initial = \<lparr>exitCode = None, out = [], invoked = [], sessions = [], stopAllCogsCalls = 0\<rparr>"

definition log :: "printed \<Rightarrow> ('p, 'c) state \<Rightarrow> ('p, 'c) state" where
  "log l st = st\<lparr>out := out st @ [l]\<rparr>"

text \<open>
  The collaborators.  \<open>runStep\<close> and \<open>runSteps\<close> answer \<open>None\<close> when the promise resolves
  and \<open>Some e\<close> when it rejects with \<open>e\<close>; the answer may depend on the calls made so far.
  \<open>lstatIsDirectory\<close> is \<open>fs.lstatSync(p).isDirectory()\<close>, \<open>globSync\<close> is \<open>glob.sync\<close>,
  \<open>newScenario\<close> the \<open>Scenario\<close> constructor, \<open>decorateStepsWithClients\<close> the manager's
  method (an error if it throws, and the sessions it leaves open), and
  \<open>coerceProtoStepTypes\<close> the inherited helper, which changes the referenced protocol step
  in place and may throw.
\<close>

record ('p, 'c) env =
  runStep :: "('p, 'c) invocation list \<Rightarrow> ('p, 'c) RunnerStep \<Rightarrow> rejection option"
  runSteps :: "('p, 'c) invocation list \<Rightarrow> ('p, 'c) StepOptions \<Rightarrow> rejection option"
  lstatIsDirectory :: "string \<Rightarrow> thrown + bool"
  globSync :: "string \<Rightarrow> string list"
  newScenario :: "string \<Rightarrow> (string \<rightharpoonup> string) \<Rightarrow> thrown + ('p, 'c) Scenario"
  decorateStepsWithClients ::
    "('p, 'c) RunnerStep list \<Rightarrow> bool \<Rightarrow> thrown option \<times> session list"
  coerceProtoStepTypes :: "'p \<Rightarrow> string \<Rightarrow> thrown option"

subsection \<open>parseTokens (lines 299-313)\<close>

text \<open>
  \<open>tokens[k] = v\<close> on the plain object \<open>{}\<close>.  Assigning a string to the key \<open>__proto__\<close>
  runs the inherited setter, which ignores values that are not objects: no entry is
  stored.
\<close>

definition assign :: "(string \<rightharpoonup> string) \<Rightarrow> string \<Rightarrow> string \<Rightarrow> (string \<rightharpoonup> string)" where
  "assign tokens k v = (if k = ''__proto__'' then tokens else tokens(k \<mapsto> v))"

definition parseToken :: "(string \<rightharpoonup> string) \<Rightarrow> string \<Rightarrow> (string \<rightharpoonup> string)" where
  "parseToken tokens token =
     (let splat = split (CHR ''='') 2 token in
      if truthy (at splat 0) \<and> truthy (at splat 1)
      then assign tokens (the (at splat 0)) (the (at splat 1))
      else tokens)"

fun forEachToken :: "(string \<rightharpoonup> string) \<Rightarrow> string list \<Rightarrow> (string \<rightharpoonup> string)" where
  "forEachToken tokens [] = tokens"
| "forEachToken tokens (token # rest) = forEachToken (parseToken tokens token) rest"

definition parseTokens :: "string list \<Rightarrow> (string \<rightharpoonup> string)" where
  "parseTokens tokensFromFlags = forEachToken Map.empty tokensFromFlags"

subsection \<open>parseScenarioFiles (lines 315-349)\<close>

text \<open>\<open>fileOrDirectory.replace(/\\/g, '/')\<close>\<close>

definition windowsSafeGlob :: "string \<Rightarrow> string" where
  "windowsSafeGlob fileOrDirectory =
     map (\<lambda>c. if c = CHR 0x5C then CHR ''/'' else c) fileOrDirectory"

text \<open>\<open>files.map(file => new Scenario(...))\<close>: the first constructor that throws ends the map.\<close>

fun mapScenarios ::
  "('p, 'c) env \<Rightarrow> (string \<rightharpoonup> string) \<Rightarrow> string list \<Rightarrow> thrown + ('p, 'c) Scenario list" where
  "mapScenarios E tokens [] = Inr []"
| "mapScenarios E tokens (f # files) =
     (case newScenario E f tokens of
        Inl e \<Rightarrow> Inl e
      | Inr s \<Rightarrow> (case mapScenarios E tokens files of
                    Inl e \<Rightarrow> Inl e
                  | Inr ss \<Rightarrow> Inr (s # ss)))"

definition parseScenarioFiles ::
  "('p, 'c) env \<Rightarrow> string \<Rightarrow> (string \<rightharpoonup> string) \<Rightarrow> thrown + ('p, 'c) Scenario list" where
  "parseScenarioFiles E fileOrDirectory tokens =
     (let isDirectory = (case lstatIsDirectory E fileOrDirectory of
                           Inl e \<Rightarrow> False
                         | Inr b \<Rightarrow> b) in
      if \<not> isDirectory then
        (case newScenario E fileOrDirectory tokens of
           Inl e \<Rightarrow> Inl e
         | Inr s \<Rightarrow> Inr [s])
      else
        (let files = globSync E (windowsSafeGlob fileOrDirectory @ ''/**/*.crank.yml'') in
         if length files = 0
         then Inl (Error (''No .crank.yml files found in '' @ fileOrDirectory))
         else mapScenarios E tokens files))"

subsection \<open>One plan element (lines 225-260)\<close>

text \<open>
  The options of the merged runner step of a group (lines 228-236).  \<open>step[0].cog\<close> on an
  empty Array reads a property of \<open>undefined\<close>, which throws.
\<close>

fun stepRunner :: "('p, 'c) RunnerStep list \<Rightarrow> thrown + ('p, 'c) StepOptions" where
  "stepRunner [] = Inl (TypeError ''Cannot read property 'cog' of undefined'')"
| "stepRunner (s0 # ss) =
     Inr \<lparr>optCog = cog s0,
          optProtoSteps = map (\<lambda>s. firstOf (protoSteps s)) (s0 # ss),
          optStepText = map (\<lambda>s. firstOf (stepText s)) (s0 # ss),
          optClient = client s0,
          optWaitFor = map (\<lambda>s. first (waitFor s)) (s0 # ss),
          optFailAfter = map (\<lambda>s. first (failAfter s)) (s0 # ss)\<rparr>"

text \<open>
  The \<open>catch (e)\<close> block (lines 245-259): it counts, sets \<open>process.exitCode\<close> and rejects with
  \<open>{innerIndex, stepIndex}\<close>.
\<close>

definition innerIndexOf :: "rejection \<Rightarrow> nat" where
  "innerIndexOf e = (case e of RejectedArray rs \<Rightarrow> length rs | RejectedOther \<Rightarrow> 0)"

definition catchStep ::
  "rejection \<Rightarrow> nat \<Rightarrow> ('p, 'c) state \<times> Timer \<Rightarrow> (('p, 'c) state \<times> Timer) \<times> (nat \<times> nat) option" where
  "catchStep e index = (\<lambda>(st, timer).
     (let timer' = (case e of
                      RejectedArray rs \<Rightarrow>
                        (let failures = filter (\<lambda>s. getOutcome s \<noteq> PASSED) rs in
                         addFailedStep (length failures)
                           (addPassedStep (length rs - length failures) timer))
                    | RejectedOther \<Rightarrow> addFailedStep 1 timer)
      in ((st\<lparr>exitCode := Some 1\<rparr>, timer'), Some (index, innerIndexOf e))))"

text \<open>
  The callback of the inner \<open>mapSeries\<close>.  The result is \<open>None\<close> when the promise resolves
  and \<open>Some (stepIndex, innerIndex)\<close> when it rejects.
\<close>

fun runElement ::
  "('p, 'c) env \<Rightarrow> nat \<Rightarrow> ('p, 'c) plan_element \<Rightarrow> ('p, 'c) state \<times> Timer
     \<Rightarrow> (('p, 'c) state \<times> Timer) \<times> (nat \<times> nat) option" where
  "runElement E index (Group step) (st, timer) =
     (case stepRunner step of
        Inl e \<Rightarrow> catchStep RejectedOther index (st, timer)
      | Inr r \<Rightarrow>
          (let st' = st\<lparr>invoked := invoked st @ [RunSteps r]\<rparr> in
           case runSteps E (invoked st) r of
             None \<Rightarrow> ((st', addPassedStep (length step) timer), None)
           | Some e \<Rightarrow> catchStep e index (st', timer)))"
| "runElement E index (Single step) (st, timer) =
     (let st' = st\<lparr>invoked := invoked st @ [RunStep step]\<rparr> in
      case runStep E (invoked st) step of
        None \<Rightarrow> ((st', addPassedStep 1 timer), None)
      | Some e \<Rightarrow> catchStep e index (st', timer))"

text \<open>\<open>Bluebird.mapSeries\<close> over the plan: one element after the other, up to the first rejection.\<close>

fun mapSeriesPlan ::
  "('p, 'c) env \<Rightarrow> nat \<Rightarrow> ('p, 'c) plan_element list \<Rightarrow> ('p, 'c) state \<times> Timer
     \<Rightarrow> (('p, 'c) state \<times> Timer) \<times> (nat \<times> nat) option" where
  "mapSeriesPlan E index [] s = (s, None)"
| "mapSeriesPlan E index (el # els) s =
     (case runElement E index el s of
        (s', None) \<Rightarrow> mapSeriesPlan E (Suc index) els s'
      | (s', Some r) \<Rightarrow> (s', Some r))"

subsection \<open>Skipping after a rejection (lines 265-276)\<close>

definition skipOne :: "('p, 'c) RunnerStep \<Rightarrow> ('p, 'c) state \<times> Timer \<Rightarrow> ('p, 'c) state \<times> Timer" where
  "skipOne s = (\<lambda>(st, timer). (log (SkipMark (stepText s)) st, addSkippedStep 1 timer))"

text \<open>
  The \<open>forEach\<close> over \<open>scenario.optimizedSteps.slice(stepIndex)\<close>, with the variable
  \<open>innerIndex\<close> that a group resets to 0.
\<close>

fun skipEach ::
  "nat \<Rightarrow> ('p, 'c) plan_element list \<Rightarrow> ('p, 'c) state \<times> Timer \<Rightarrow> ('p, 'c) state \<times> Timer" where
  "skipEach innerIndex [] s = s"
| "skipEach innerIndex (Group step # rest) s =
     skipEach 0 rest (fold skipOne (drop innerIndex step) s)"
| "skipEach innerIndex (Single step # rest) s =
     skipEach innerIndex rest (skipOne step s)"

subsection \<open>One scenario and the batch (lines 217-288)\<close>

text \<open>
  The callback of the outer \<open>mapSeries\<close>: state, overall Timer and one scenario in, state
  and overall Timer out.  Its promise never rejects.
\<close>

definition scenarioHeader :: "('p, 'c) Scenario \<Rightarrow> printed" where
  "scenarioHeader scenario = Line ([CHR 0x0A] @ name scenario @ [CHR 0x0A])"

definition runScenario ::
  "('p, 'c) env \<Rightarrow> ('p, 'c) Scenario \<Rightarrow> ('p, 'c) state \<times> Timer \<Rightarrow> ('p, 'c) state \<times> Timer" where
  "runScenario E scenario = (\<lambda>(st, overallTimer).
     (let st1 = log (scenarioHeader scenario) st;
          timer = newTimer
      in case mapSeriesPlan E 0 (optimizedSteps scenario) (st1, timer) of
           ((st2, timer2), None) \<Rightarrow>
             (log (PrintTime timer2) st2, addPassedStep 1 overallTimer)
         | ((st2, timer2), Some (stepIndex, innerIndex)) \<Rightarrow>
             (let overallTimer' = addFailedStep 1 overallTimer;
                  (st3, timer3) =
                    skipEach innerIndex (drop stepIndex (optimizedSteps scenario)) (st2, timer2)
              in (log (PrintTime timer3) st3, overallTimer'))))"

definition runScenarios ::
  "('p, 'c) env \<Rightarrow> ('p, 'c) Scenario list \<Rightarrow> ('p, 'c) state \<Rightarrow> ('p, 'c) state \<times> Timer" where
  "runScenarios E scenarios st =
     (let (st', overallTimer) = fold (runScenario E) scenarios (st, newTimer)
      in if length scenarios > 1
         then (log (PrintOverallTime overallTimer) (log (Line ([CHR 0x0A] @ ''All Scenarios:'')) st'),
               overallTimer)
         else (st', overallTimer))"

subsection \<open>Coercing types (lines 205-215)\<close>

text \<open>
  \<open>runnerStep.protoSteps.forEach\<close> needs an Array; on anything else the call throws.  The
  first throw leaves \<open>run\<close>.
\<close>

fun coerceProtoSteps :: "('p, 'c) env \<Rightarrow> string \<Rightarrow> 'p list \<Rightarrow> thrown option" where
  "coerceProtoSteps E c [] = None"
| "coerceProtoSteps E c (p # ps) =
     (case coerceProtoStepTypes E p c of
        Some e \<Rightarrow> Some e
      | None \<Rightarrow> coerceProtoSteps E c ps)"

definition coerceRunnerStep :: "('p, 'c) env \<Rightarrow> ('p, 'c) RunnerStep \<Rightarrow> thrown option" where
  "coerceRunnerStep E runnerStep =
     (case protoSteps runnerStep of
        One p \<Rightarrow> Some (TypeError ''runnerStep.protoSteps.forEach is not a function'')
      | Many ps \<Rightarrow> coerceProtoSteps E (cog runnerStep) ps)"

fun firstThrown :: "('a \<Rightarrow> thrown option) \<Rightarrow> 'a list \<Rightarrow> thrown option" where
  "firstThrown f [] = None"
| "firstThrown f (x # xs) = (case f x of Some e \<Rightarrow> Some e | None \<Rightarrow> firstThrown f xs)"

definition runnerSteps :: "('p, 'c) plan_element \<Rightarrow> ('p, 'c) RunnerStep list" where
  "runnerSteps step = (case step of Group ss \<Rightarrow> ss | Single s \<Rightarrow> [s])"

definition coerceTypes :: "('p, 'c) env \<Rightarrow> ('p, 'c) Scenario list \<Rightarrow> thrown option" where
  "coerceTypes E scenarios =
     firstThrown (\<lambda>scenario.
       firstThrown (\<lambda>step. firstThrown (coerceRunnerStep E) (runnerSteps step))
         (optimizedSteps scenario)) scenarios"

subsection \<open>run (lines 169-288) and finally (lines 290-292)\<close>

text \<open>The \<open>catch (e)\<close> of the setup stage (lines 182-203).\<close>

definition reportSetupError :: "thrown \<Rightarrow> ('p, 'c) state \<Rightarrow> ('p, 'c) state" where
  "reportSetupError e st =
     (let st1 = log (Line (''  '' @ toString e))
                  (log (Line ''Error running scenario:'') (log (Line []) st));
          st2 = (case e of
                   AuthenticationError t h \<Rightarrow>
                     (if truthy h
                      then log (Url (the h) (the h))
                             (log (Line ''Relevant authentication docs for your reference:'')
                               (log (Line []) st1))
                      else st1)
                 | _ \<Rightarrow> st1);
          st3 = (case e of
                   MissingStepError t \<Rightarrow>
                     log (Line ''  crank registry:steps'')
                       (log (Line ''Run the following to list available steps'')
                         (log (Line []) st2))
                 | _ \<Rightarrow> st2)
      in st3\<lparr>exitCode := Some 1\<rparr>)"

text \<open>
  The \<open>try\<close> block of the setup stage (lines 174-181): the scenarios, or the error its
  \<open>catch\<close> receives, and the state with the sessions the manager opened.
\<close>

definition trySetup ::
  "('p, 'c) env \<Rightarrow> string \<Rightarrow> (string \<rightharpoonup> string) \<Rightarrow> bool \<Rightarrow> ('p, 'c) state
     \<Rightarrow> (thrown + ('p, 'c) Scenario list) \<times> ('p, 'c) state" where
  "trySetup E argsFile tokens useSsl st =
     (case parseScenarioFiles E argsFile tokens of
        Inl e \<Rightarrow> (Inl e, st)
      | Inr scenarios \<Rightarrow>
          (case decorateStepsWithClients E (concat (map steps scenarios)) useSsl of
             (Some e, opened) \<Rightarrow> (Inl e, st\<lparr>sessions := sessions st @ opened\<rparr>)
           | (None, opened) \<Rightarrow> (Inr scenarios, st\<lparr>sessions := sessions st @ opened\<rparr>)))"

text \<open>
  \<open>run\<close>: the token flags, the \<open>use-ssl\<close> flag and the \<open>file\<close> argument in, the state out,
  together with the error that leaves \<open>run\<close> uncaught, if any.
\<close>

definition run ::
  "('p, 'c) env \<Rightarrow> string list \<Rightarrow> bool \<Rightarrow> string \<Rightarrow> ('p, 'c) state
     \<Rightarrow> thrown option \<times> ('p, 'c) state" where
  "run E flagsToken useSsl argsFile st =
     (let tokens = parseTokens flagsToken in
      case trySetup E argsFile tokens useSsl st of
        (Inl e, st1) \<Rightarrow> (None, reportSetupError e st1)
      | (Inr scenarios, st1) \<Rightarrow>
          (case coerceTypes E scenarios of
             Some e \<Rightarrow> (Some e, st1)
           | None \<Rightarrow> (None, fst (runScenarios E scenarios st1))))"

text \<open>
  Modelled from the spec: \<open>CogManager.stopAllCogs\<close> is not in the sources.  The spec's
  \<open>shutdownAll\<close> terminates every live session best-effort: a session that does not stop
  cleanly is recorded as a warning, nothing is thrown, and no session is left.
\<close>

definition stopAllCogs :: "('p, 'c) state \<Rightarrow> ('p, 'c) state" where
  "stopAllCogs st =
     st\<lparr>out := out st @ map (\<lambda>s. TeardownWarning (sessionCog s))
                          (filter (\<lambda>s. \<not> stopsCleanly s) (sessions st)),
        sessions := [],
        stopAllCogsCalls := Suc (stopAllCogsCalls st)\<rparr>"

text \<open>\<open>finally\<close> (lines 290-292) calls \<open>stopAllCogs\<close>.\<close>

definition finally_hook :: "('p, 'c) state \<Rightarrow> ('p, 'c) state" where
  "finally_hook st = stopAllCogs st"

text \<open>
  Modelled from the spec: the command framework that calls \<open>run\<close> and \<open>finally\<close> is not in
  the sources.  The spec describes a scoped-acquisition/guaranteed-release discipline
  around the whole run: \<open>finally\<close> is called once after \<open>run\<close>, whether \<open>run\<close> returned or
  threw.
\<close>

definition runCommand ::
  "('p, 'c) env \<Rightarrow> string list \<Rightarrow> bool \<Rightarrow> string \<Rightarrow> thrown option \<times> ('p, 'c) state" where
  "runCommand E flagsToken useSsl argsFile =
     (case run E flagsToken useSsl argsFile initial of
        (err, st) \<Rightarrow> (err, finally_hook st))"

subsection \<open>The plan optimizer\<close>






subsection \<open>Observations used in the statements\<close>

text \<open>The entries of a field, as an Array.\<close>

fun entries :: "'a field \<Rightarrow> 'a list" where
  "entries (One x) = [x]"
| "entries (Many xs) = xs"




text \<open>The step units of a plan element and of a plan, and the units a Timer has counted.\<close>

fun stepUnits :: "('p, 'c) plan_element \<Rightarrow> nat" where
  "stepUnits (Single s) = 1"
| "stepUnits (Group ss) = length ss"

definition planUnits :: "('p, 'c) plan_element list \<Rightarrow> nat" where
  "planUnits plan = sum_list (map stepUnits plan)"

definition counted :: "Timer \<Rightarrow> nat" where
  "counted t = passed t + failed t + skipped t"

text \<open>The Timers printed for scenarios, and the steps marked as skipped, in order.\<close>

fun printTimes :: "printed list \<Rightarrow> Timer list" where
  "printTimes [] = []"
| "printTimes (PrintTime t # ls) = t # printTimes ls"
| "printTimes (l # ls) = printTimes ls"

fun skipMarks :: "printed list \<Rightarrow> string field list" where
  "skipMarks [] = []"
| "skipMarks (SkipMark t # ls) = t # skipMarks ls"
| "skipMarks (l # ls) = skipMarks ls"

text \<open>
  Whether a scenario started in state \<open>st\<close> completes, that is, its inner \<open>mapSeries\<close>
  resolves; and, for a batch, which of its scenarios complete.
\<close>

definition completes :: "('p, 'c) env \<Rightarrow> ('p, 'c) Scenario \<Rightarrow> ('p, 'c) state \<Rightarrow> bool" where
  "completes E scenario st =
     (snd (mapSeriesPlan E 0 (optimizedSteps scenario)
            (log (scenarioHeader scenario) st, newTimer)) = None)"

fun completions ::
  "('p, 'c) env \<Rightarrow> ('p, 'c) Scenario list \<Rightarrow> ('p, 'c) state \<times> Timer \<Rightarrow> bool list" where
  "completions E [] s = []"
| "completions E (scenario # rest) s =
     completes E scenario (fst s) # completions E rest (runScenario E scenario s)"

text \<open>The hints printed after a setup error, as lines 187-199 give them.\<close>

fun remediation :: "thrown \<Rightarrow> printed list" where
  "remediation (AuthenticationError t (Some u)) =
     (if u = [] then []
      else [Line [], Line ''Relevant authentication docs for your reference:'', Url u u])"
| "remediation (MissingStepError t) =
     [Line [], Line ''Run the following to list available steps'',
      Line ''  crank registry:steps'']"
| "remediation e = []"

text \<open>
  The parts of a raw token: the name before the first \<open>=\<close>, everything after the first
  \<open>=\<close>, and the value, which ends before the second \<open>=\<close>.
\<close>

definition rawName :: "string \<Rightarrow> string" where
  "rawName token = takeWhile (\<lambda>c. c \<noteq> CHR ''='') token"

definition rawRemainder :: "string \<Rightarrow> string" where
  "rawRemainder token = drop 1 (dropWhile (\<lambda>c. c \<noteq> CHR ''='') token)"

definition rawValue :: "string \<Rightarrow> string" where
  "rawValue token = takeWhile (\<lambda>c. c \<noteq> CHR ''='') (rawRemainder token)"

definition stored :: "string \<Rightarrow> bool" where
  "stored token = (rawName token \<noteq> [] \<and> rawValue token \<noteq> [] \<and> rawName token \<noteq> ''__proto__'')"

subsection \<open>The calls a walk is expected to make\<close>


fun callStepText :: "('p, 'c) invocation \<Rightarrow> string option list" where
  "callStepText (RunStep s) = map Some (entries (stepText s))"
| "callStepText (RunSteps r) = optStepText r"

text \<open>
  A scenario that executes to completion walks its plan from the first element, one call
  per element, up to and including the first element that the engine rejects; an empty
  group ends the walk without a call.  A batch in which every scenario executes walks the
  plans of all its scenarios one after the other, whatever failed before.  The two
  functions give the calls made, after the calls \<open>calls\<close> made so far.
\<close>

fun planCalls ::
  "('p, 'c) env \<Rightarrow> ('p, 'c) invocation list \<Rightarrow> ('p, 'c) plan_element list
     \<Rightarrow> ('p, 'c) invocation list" where
  "planCalls E calls [] = calls"
| "planCalls E calls (Single s # els) =
     (case runStep E calls s of
        None \<Rightarrow> planCalls E (calls @ [RunStep s]) els
      | Some e \<Rightarrow> calls @ [RunStep s])"
| "planCalls E calls (Group g # els) =
     (case stepRunner g of
        Inl e \<Rightarrow> calls
      | Inr r \<Rightarrow>
          (case runSteps E calls r of
             None \<Rightarrow> planCalls E (calls @ [RunSteps r]) els
           | Some e \<Rightarrow> calls @ [RunSteps r]))"

fun batchCalls ::
  "('p, 'c) env \<Rightarrow> ('p, 'c) invocation list \<Rightarrow> ('p, 'c) Scenario list
     \<Rightarrow> ('p, 'c) invocation list" where
  "batchCalls E calls [] = calls"
| "batchCalls E calls (scenario # rest) =
     batchCalls E (planCalls E calls (optimizedSteps scenario)) rest"

subsection \<open>Concrete inputs\<close>

definition exampleStep :: "string \<Rightarrow> nat \<Rightarrow> nat \<Rightarrow> (nat, nat) RunnerStep" where
  "exampleStep t c w =
     \<lparr>cog = ''cog'', protoSteps = Many [c], stepText = Many [t], client = c,
      waitFor = [w], failAfter = [w + 50]\<rparr>"

definition stepA :: "(nat, nat) RunnerStep" where
  "stepA = exampleStep ''A'' 1 0"

definition stepB :: "(nat, nat) RunnerStep" where
  "stepB = exampleStep ''B'' 2 100"

definition scenarioOf :: "string \<Rightarrow> (nat, nat) plan_element list \<Rightarrow> (nat, nat) Scenario" where
  "scenarioOf n plan =
     \<lparr>name = n, scenarioFile = n @ ''.crank.yml'', steps = concat (map runnerSteps plan),
      optimizedSteps = plan\<rparr>"

text \<open>
  An engine in which exactly the steps with display text \<open>t\<close> fail, a file system in which
  \<open>dir\<close> is an empty directory and every other path a file (\<open>missing\<close> cannot be parsed,
  \<open>odd\<close> holds a step whose \<open>protoSteps\<close> is not an Array, the others hold the plan
  \<open>[A, B]\<close>), and a manager that opens one session.
\<close>

definition exampleEnv :: "string \<Rightarrow> (nat, nat) env" where
  "exampleEnv t =
     \<lparr>runStep = (\<lambda>calls s. if stepText s = Many [t] then Some RejectedOther else None),
      runSteps = (\<lambda>calls r.
         if Some t \<in> set (optStepText r)
         then Some (RejectedArray
                (map (\<lambda>x. RunStepResponse (if x = Some t then FAILED else PASSED))
                     (optStepText r)))
         else None),
      lstatIsDirectory = (\<lambda>p. if p = ''dir'' then Inr True
                              else if p = ''missing'' then Inl (Error ''ENOENT'') else Inr False),
      globSync = (\<lambda>p. []),
      newScenario = (\<lambda>f tokens.
         if f = ''missing'' then Inl (MissingStepError ''Missing step definition'')
         else if f = ''odd'' then Inr (scenarioOf f [Single (stepA\<lparr>protoSteps := One 1\<rparr>)])
         else Inr (scenarioOf f [Single stepA, Single stepB])),
      decorateStepsWithClients = (\<lambda>ss ssl.
         (if ssl then Some (AuthenticationError ''Bad credentials'' (Some ''https://docs''))
          else None,
          [\<lparr>sessionCog = ''cog'', stopsCleanly = False\<rparr>])),
      coerceProtoStepTypes = (\<lambda>p c. None)\<rparr>"

definition scenarioG :: "(nat, nat) Scenario" where
  "scenarioG = scenarioOf ''G'' [Single stepA, Group [stepA, stepB], Single stepA]"

definition scenarioH :: "(nat, nat) Scenario" where
  "scenarioH = scenarioOf ''H'' [Group [stepA, stepA], Single stepA]"

definition stepC :: "(nat, nat) RunnerStep" where
  "stepC = exampleStep ''C'' 3 0"



section \<open>Properties\<close>

lemmas example_defs = exampleEnv_def scenarioOf_def stepA_def stepB_def exampleStep_def

lemmas timer_defs = newTimer_def addPassedStep_def addFailedStep_def addSkippedStep_def

lemmas run_defs = runScenario_def scenarioHeader_def catchStep_def skipOne_def innerIndexOf_def log_def
  initial_def runnerSteps_def planUnits_def

subsection \<open>What each stage leaves unchanged\<close>

lemma log_fields [simp]:
  "exitCode (log l st) = exitCode st"
  "out (log l st) = out st @ [l]"
  "invoked (log l st) = invoked st"
  "sessions (log l st) = sessions st"
  "stopAllCogsCalls (log l st) = stopAllCogsCalls st"
  by (simp_all add: log_def)

lemma printTimes_append [simp]: "printTimes (xs @ ys) = printTimes xs @ printTimes ys"
  by (induction xs rule: printTimes.induct) simp_all

lemma printTimes_header [simp]: "printTimes (scenarioHeader sc # ls) = printTimes ls"
  by (simp add: scenarioHeader_def)

lemma catchStep_frame:
  "catchStep e i (st, t) = ((st', t'), r) \<Longrightarrow>
     out st' = out st \<and> invoked st' = invoked st \<and> sessions st' = sessions st \<and>
     stopAllCogsCalls st' = stopAllCogsCalls st \<and> exitCode st' = Some 1 \<and>
     r = Some (i, innerIndexOf e)"
  by (auto simp: catchStep_def Let_def)

lemma runElement_frame:
  assumes "runElement E i el (st, t) = ((st', t'), r)"
  shows "out st' = out st \<and> sessions st' = sessions st \<and>
         stopAllCogsCalls st' = stopAllCogsCalls st \<and>
         exitCode st' = (if r = None then exitCode st else Some 1)"
proof (cases el)
  case (Single s)
  with assms show ?thesis
    by (auto simp: Let_def split: option.splits dest!: catchStep_frame)
next
  case (Group ss)
  with assms show ?thesis
    by (auto simp: Let_def split: option.splits sum.splits dest!: catchStep_frame)
qed

lemma mapSeriesPlan_frame:
  "mapSeriesPlan E i plan (st, t) = ((st', t'), r) \<Longrightarrow>
     out st' = out st \<and> sessions st' = sessions st \<and>
     stopAllCogsCalls st' = stopAllCogsCalls st \<and>
     exitCode st' = (if r = None then exitCode st else Some 1)"
proof (induction plan arbitrary: i st t)
  case Nil
  then show ?case by simp
next
  case (Cons el els)
  obtain st1 t1 r1 where el: "runElement E i el (st, t) = ((st1, t1), r1)"
    by (metis prod.exhaust)
  note f = runElement_frame [OF el]
  show ?case
  proof (cases r1)
    case None
    with Cons.prems el have "mapSeriesPlan E (Suc i) els (st1, t1) = ((st', t'), r)"
      by simp
    from Cons.IH [OF this] f None show ?thesis by simp
  next
    case (Some a)
    with Cons.prems el have "st' = st1" "r = Some a" by simp_all
    with f Some show ?thesis by simp
  qed
qed

lemma skipOne_frame:
  "skipOne s (st, t) = (st', t') \<Longrightarrow>
     exitCode st' = exitCode st \<and> invoked st' = invoked st \<and> sessions st' = sessions st \<and>
     stopAllCogsCalls st' = stopAllCogsCalls st \<and> printTimes (out st') = printTimes (out st)"
  by (auto simp: skipOne_def)

lemma fold_skipOne_frame:
  "fold skipOne ss (st, t) = (st', t') \<Longrightarrow>
     exitCode st' = exitCode st \<and> invoked st' = invoked st \<and> sessions st' = sessions st \<and>
     stopAllCogsCalls st' = stopAllCogsCalls st \<and> printTimes (out st') = printTimes (out st)"
proof (induction ss arbitrary: st t)
  case Nil
  then show ?case by simp
next
  case (Cons s ss)
  obtain st1 t1 where s: "skipOne s (st, t) = (st1, t1)" by (metis prod.exhaust)
  with Cons.prems have "fold skipOne ss (st1, t1) = (st', t')" by simp
  from Cons.IH [OF this] skipOne_frame [OF s] show ?case by simp
qed

lemma skipEach_frame:
  "skipEach n plan (st, t) = (st', t') \<Longrightarrow>
     exitCode st' = exitCode st \<and> invoked st' = invoked st \<and> sessions st' = sessions st \<and>
     stopAllCogsCalls st' = stopAllCogsCalls st \<and> printTimes (out st') = printTimes (out st)"
proof (induction n plan "(st, t)" arbitrary: st t rule: skipEach.induct)
  case (1 innerIndex)
  then show ?case by simp
next
  case (2 innerIndex step rest)
  obtain st1 t1 where s: "fold skipOne (drop innerIndex step) (st, t) = (st1, t1)"
    by (metis prod.exhaust)
  with "2.prems" have "skipEach 0 rest (st1, t1) = (st', t')" by simp
  from "2.hyps" [OF s this] fold_skipOne_frame [OF s] show ?case by simp
next
  case (3 innerIndex step rest)
  obtain st1 t1 where s: "skipOne step (st, t) = (st1, t1)" by (metis prod.exhaust)
  with "3.prems" have "skipEach innerIndex rest (st1, t1) = (st', t')" by simp
  from "3.hyps" [OF s this] skipOne_frame [OF s] show ?case by simp
qed

subsection \<open>Scenarios and the batch\<close>

lemma runElement_resolved_timer:
  "runElement E i el (st, t) = ((st', t'), None) \<Longrightarrow> t' = addPassedStep (stepUnits el) t"
  by (cases el) (auto simp: Let_def catchStep_def split: option.splits sum.splits)

lemma addPassedStep_add: "addPassedStep m (addPassedStep n t) = addPassedStep (n + m) t"
  by (simp add: addPassedStep_def add.assoc)

lemma mapSeriesPlan_resolved_timer:
  "mapSeriesPlan E i plan (st, t) = ((st', t'), None) \<Longrightarrow> t' = addPassedStep (planUnits plan) t"
proof (induction plan arbitrary: i st t)
  case Nil
  then show ?case by (simp add: planUnits_def addPassedStep_def)
next
  case (Cons el els)
  obtain st1 t1 r1 where el: "runElement E i el (st, t) = ((st1, t1), r1)"
    by (metis prod.exhaust)
  with Cons.prems have r1: "r1 = None" by (cases r1) simp_all
  with Cons.prems el have "mapSeriesPlan E (Suc i) els (st1, t1) = ((st', t'), None)" by simp
  from Cons.IH [OF this] runElement_resolved_timer [OF el [unfolded r1]]
  show ?case by (simp add: planUnits_def addPassedStep_add)
qed

lemma runScenario_result:
  assumes "runScenario E sc (st, ov) = (st', ov')"
  shows "ov' = (if completes E sc st then addPassedStep 1 ov else addFailedStep 1 ov) \<and>
    exitCode st' = (if completes E sc st then exitCode st else Some 1) \<and>
    (\<exists>t. printTimes (out st') = printTimes (out st) @ [t]) \<and>
    sessions st' = sessions st \<and>
    stopAllCogsCalls st' = stopAllCogsCalls st \<and>
    (if completes E sc st
     then printTimes (out st') = printTimes (out st) @
            [\<lparr>passed = planUnits (optimizedSteps sc), failed = 0, skipped = 0\<rparr>]
     else True)"
proof -
  define st0 where "st0 = log (scenarioHeader sc) st"
  obtain st2 t2 r where m: "mapSeriesPlan E 0 (optimizedSteps sc) (st0, newTimer) = ((st2, t2), r)"
    by (metis prod.exhaust)
  note f = mapSeriesPlan_frame [OF m]
  have c: "completes E sc st = (r = None)"
    using m by (simp add: completes_def st0_def)
  show ?thesis
  proof (cases r)
    case None
    from m None have t2: "t2 = addPassedStep (planUnits (optimizedSteps sc)) newTimer"
      by (auto dest: mapSeriesPlan_resolved_timer)
    from assms m None f have "st' = log (PrintTime t2) st2" "ov' = addPassedStep 1 ov"
      by (simp_all add: runScenario_def st0_def [symmetric])
    with f None c t2 show ?thesis
      by (simp add: st0_def addPassedStep_def newTimer_def)
  next
    case (Some a)
    obtain k inner where a: "a = (k, inner)" by (cases a)
    obtain st3 t3 where s: "skipEach inner (drop k (optimizedSteps sc)) (st2, t2) = (st3, t3)"
      by (metis prod.exhaust)
    note g = skipEach_frame [OF s]
    from assms m Some a s have "st' = log (PrintTime t3) st3" "ov' = addFailedStep 1 ov"
      by (simp_all add: runScenario_def st0_def [symmetric])
    with f g Some c show ?thesis
      by (simp add: st0_def)
  qed
qed

lemma fold_runScenario:
  "fold (runScenario E) scs (st, ov) = (st', ov') \<Longrightarrow>
     passed ov' = passed ov + length (filter id (completions E scs (st, ov))) \<and>
     failed ov' = failed ov + length (filter Not (completions E scs (st, ov))) \<and>
     skipped ov' = skipped ov \<and>
     exitCode st' = (if False \<in> set (completions E scs (st, ov)) then Some 1 else exitCode st) \<and>
     length (printTimes (out st')) = length (printTimes (out st)) + length scs \<and>
     sessions st' = sessions st \<and> stopAllCogsCalls st' = stopAllCogsCalls st"
proof (induction scs arbitrary: st ov)
  case Nil
  then show ?case by simp
next
  case (Cons sc scs)
  obtain st1 ov1 where r: "runScenario E sc (st, ov) = (st1, ov1)" by (metis prod.exhaust)
  with Cons.prems have "fold (runScenario E) scs (st1, ov1) = (st', ov')" by simp
  note ih = Cons.IH [OF this]
  note rs = runScenario_result [OF r]
  from rs obtain t where t: "printTimes (out st1) = printTimes (out st) @ [t]" by blast
  show ?case
  proof (cases "completes E sc st")
    case True
    with ih rs t r show ?thesis by (simp add: addPassedStep_def)
  next
    case False
    with ih rs t r show ?thesis by (simp add: addFailedStep_def)
  qed
qed


lemma runScenarios_result:
  assumes "runScenarios E scs st = (st', ov')"
  shows "ov' = \<lparr>passed = length (filter id (completions E scs (st, newTimer))),
                failed = length (filter Not (completions E scs (st, newTimer))),
                skipped = 0\<rparr>"
    and "exitCode st' = (if False \<in> set (completions E scs (st, newTimer)) then Some 1 else exitCode st)"
    and "length (printTimes (out st')) = length (printTimes (out st)) + length scs"
    and "sessions st' = sessions st" and "stopAllCogsCalls st' = stopAllCogsCalls st"
proof -
  obtain st1 ov1 where f: "fold (runScenario E) scs (st, newTimer) = (st1, ov1)"
    by (metis prod.exhaust)
  note r = fold_runScenario [OF f]
  from assms f have ov: "ov' = ov1"
    and st: "st' = (if length scs > 1
              then log (PrintOverallTime ov1) (log (Line ([CHR 0x0A] @ ''All Scenarios:'')) st1)
              else st1)"
    by (auto simp: runScenarios_def split: if_splits)
  from r ov show "ov' = \<lparr>passed = length (filter id (completions E scs (st, newTimer))),
                failed = length (filter Not (completions E scs (st, newTimer))),
                skipped = 0\<rparr>"
    by (simp add: newTimer_def)
  from r st show "exitCode st' = (if False \<in> set (completions E scs (st, newTimer)) then Some 1 else exitCode st)"
    and "length (printTimes (out st')) = length (printTimes (out st)) + length scs"
    and "sessions st' = sessions st" and "stopAllCogsCalls st' = stopAllCogsCalls st"
    by simp_all
qed

subsection \<open>The setup stage\<close>

lemma trySetup_frame:
  "trySetup E f tokens ssl st = (x, st1) \<Longrightarrow>
     out st1 = out st \<and> invoked st1 = invoked st \<and> exitCode st1 = exitCode st \<and>
     stopAllCogsCalls st1 = stopAllCogsCalls st"
  by (auto simp: trySetup_def split: sum.splits prod.splits option.splits)

lemma reportSetupError_out:
  "out (reportSetupError e st) =
     out st @ [Line [], Line ''Error running scenario:'', Line (''  '' @ toString e)]
       @ remediation e"
proof (cases e)
  case (AuthenticationError t h)
  then show ?thesis
    by (cases h) (simp_all add: reportSetupError_def truthy_def Let_def)
qed (simp_all add: reportSetupError_def Let_def)

lemma reportSetupError_frame:
  "exitCode (reportSetupError e st) = Some 1 \<and>
   invoked (reportSetupError e st) = invoked st \<and>
   sessions (reportSetupError e st) = sessions st \<and>
   stopAllCogsCalls (reportSetupError e st) = stopAllCogsCalls st"
proof (cases e)
  case (AuthenticationError t h)
  then show ?thesis
    by (cases h) (simp_all add: reportSetupError_def truthy_def Let_def)
qed (simp_all add: reportSetupError_def Let_def)

lemma printTimes_remediation [simp]: "printTimes (remediation e) = []"
  by (induction e rule: remediation.induct) simp_all

lemma run_setup_failed:
  "trySetup E f (parseTokens toks) ssl st = (Inl e, st1) \<Longrightarrow>
     run E toks ssl f st = (None, reportSetupError e st1)"
  by (simp add: run_def)

lemma run_setup_ok:
  "trySetup E f (parseTokens toks) ssl st = (Inr scs, st1) \<Longrightarrow> coerceTypes E scs = None \<Longrightarrow>
     run E toks ssl f st = (None, fst (runScenarios E scs st1))"
  by (simp add: run_def)

lemma initial_fields [simp]:
  "exitCode initial = None" "out initial = []" "invoked initial = []"
  "sessions initial = []" "stopAllCogsCalls initial = 0"
  by (simp_all add: initial_def)

subsection \<open>Counting units\<close>

lemma mapSeriesPlan_append:
  "mapSeriesPlan E i (xs @ ys) s =
     (case mapSeriesPlan E i xs s of
        (s', None) \<Rightarrow> mapSeriesPlan E (i + length xs) ys s'
      | (s', Some r) \<Rightarrow> (s', Some r))"
  by (induction xs arbitrary: i s) (auto split: prod.splits option.splits)

lemma skipOne_apply:
  "skipOne s (st, t) = (log (SkipMark (stepText s)) st, addSkippedStep 1 t)"
  by (simp add: skipOne_def)

lemma fold_skipOne_timer:
  "fold skipOne ss (st, t) = (st', t') \<Longrightarrow> t' = addSkippedStep (length ss) t"
proof (induction ss arbitrary: st t)
  case Nil
  then show ?case by (simp add: addSkippedStep_def)
next
  case (Cons s ss)
  from Cons.prems
  have "fold skipOne ss (log (SkipMark (stepText s)) st, addSkippedStep 1 t) = (st', t')"
    by (simp add: skipOne_apply)
  from Cons.IH [OF this] show ?case by (simp add: addSkippedStep_def)
qed

lemma skipEach_zero_timer:
  "skipEach 0 plan (st, t) = (st', t') \<Longrightarrow> t' = addSkippedStep (planUnits plan) t"
proof (induction plan arbitrary: st t)
  case Nil
  then show ?case by (simp add: planUnits_def addSkippedStep_def)
next
  case (Cons el els)
  show ?case
  proof (cases el)
    case (Single s)
    with Cons.prems
    have "skipEach 0 els (log (SkipMark (stepText s)) st, addSkippedStep 1 t) = (st', t')"
      by (simp add: skipOne_apply)
    from Cons.IH [OF this] Single show ?thesis
      by (simp add: planUnits_def addSkippedStep_def)
  next
    case (Group g)
    obtain st1 t1 where f: "fold skipOne g (st, t) = (st1, t1)" by (metis prod.exhaust)
    with Cons.prems Group have "skipEach 0 els (st1, t1) = (st', t')" by simp
    from Cons.IH [OF this] fold_skipOne_timer [OF f] Group show ?thesis
      by (simp add: planUnits_def addSkippedStep_def)
  qed
qed


lemma planUnits_append [simp]: "planUnits (xs @ ys) = planUnits xs + planUnits ys"
  by (simp add: planUnits_def)

lemma planUnits_Cons [simp]: "planUnits (el # els) = stepUnits el + planUnits els"
  by (simp add: planUnits_def)

subsection \<open>The calls made and the exit code\<close>

lemma runElement_invoked:
  "runElement E i el (st, t) = ((st', t'), r) \<Longrightarrow>
     invoked st' = planCalls E (invoked st) [el] \<and>
     (r = None \<longrightarrow> planCalls E (invoked st) (el # els) = planCalls E (invoked st') els) \<and>
     (r \<noteq> None \<longrightarrow> planCalls E (invoked st) (el # els) = invoked st')"
  by (cases el) (auto simp: Let_def catchStep_def split: option.splits sum.splits)

lemma mapSeriesPlan_invoked:
  "mapSeriesPlan E i plan (st, t) = ((st', t'), r) \<Longrightarrow>
     invoked st' = planCalls E (invoked st) plan"
proof (induction plan arbitrary: i st t)
  case Nil
  then show ?case by simp
next
  case (Cons el els)
  obtain st1 t1 r1 where el: "runElement E i el (st, t) = ((st1, t1), r1)"
    by (metis prod.exhaust)
  note f = runElement_invoked [OF el, of els]
  show ?case
  proof (cases r1)
    case None
    with Cons.prems el have "mapSeriesPlan E (Suc i) els (st1, t1) = ((st', t'), r)"
      by simp
    from Cons.IH [OF this] f None show ?thesis by simp
  next
    case (Some a)
    with Cons.prems el have "st' = st1" by simp
    with f Some show ?thesis by simp
  qed
qed

lemma runScenario_invoked:
  "invoked (fst (runScenario E sc (st, ov))) = planCalls E (invoked st) (optimizedSteps sc)"
proof -
  obtain st2 t2 r where m:
    "mapSeriesPlan E 0 (optimizedSteps sc) (log (scenarioHeader sc) st, newTimer) = ((st2, t2), r)"
    by (metis prod.exhaust)
  from mapSeriesPlan_invoked [OF m]
  have i: "invoked st2 = planCalls E (invoked st) (optimizedSteps sc)" by simp
  show ?thesis
  proof (cases r)
    case None
    with m i show ?thesis by (simp add: runScenario_def)
  next
    case (Some a)
    obtain k inner where a: "a = (k, inner)" by (cases a)
    obtain st3 t3 where s: "skipEach inner (drop k (optimizedSteps sc)) (st2, t2) = (st3, t3)"
      by (metis prod.exhaust)
    from skipEach_frame [OF s] m Some a s i show ?thesis
      by (simp add: runScenario_def)
  qed
qed

lemma fold_runScenario_invoked:
  "invoked (fst (fold (runScenario E) scs (st, ov))) = batchCalls E (invoked st) scs"
proof (induction scs arbitrary: st ov)
  case Nil
  show ?case by simp
next
  case (Cons sc scs)
  obtain st1 ov1 where r: "runScenario E sc (st, ov) = (st1, ov1)" by (metis prod.exhaust)
  from runScenario_invoked [of E sc st ov] r
  have "invoked st1 = planCalls E (invoked st) (optimizedSteps sc)" by simp
  with Cons.IH [of st1 ov1] r show ?case by simp
qed

lemma runScenarios_invoked:
  "invoked (fst (runScenarios E scs st)) = batchCalls E (invoked st) scs"
proof -
  obtain st1 ov1 where f: "fold (runScenario E) scs (st, newTimer) = (st1, ov1)"
    by (metis prod.exhaust)
  from fold_runScenario_invoked [of E scs st newTimer] f
  have "invoked st1 = batchCalls E (invoked st) scs" by simp
  with f show ?thesis by (simp add: runScenarios_def)
qed

lemma log_exitCode: "log l (st\<lparr>exitCode := c\<rparr>) = (log l st)\<lparr>exitCode := c\<rparr>"
  by (simp add: log_def)

lemma runElement_exitCode:
  "runElement E i el (st\<lparr>exitCode := c\<rparr>, t) =
     (case runElement E i el (st, t) of
        ((st', t'), r) \<Rightarrow>
          ((st'\<lparr>exitCode := (case r of None \<Rightarrow> c | Some x \<Rightarrow> Some 1)\<rparr>, t'), r))"
  by (cases el) (auto simp: Let_def catchStep_def split: option.splits sum.splits)

lemma mapSeriesPlan_exitCode:
  "mapSeriesPlan E i plan (st\<lparr>exitCode := c\<rparr>, t) =
     (case mapSeriesPlan E i plan (st, t) of
        ((st', t'), r) \<Rightarrow>
          ((st'\<lparr>exitCode := (case r of None \<Rightarrow> c | Some x \<Rightarrow> Some 1)\<rparr>, t'), r))"
proof (induction plan arbitrary: i st t)
  case Nil
  show ?case by simp
next
  case (Cons el els)
  obtain st1 t1 r1 where el: "runElement E i el (st, t) = ((st1, t1), r1)"
    by (metis prod.exhaust)
  show ?case
  proof (cases r1)
    case None
    with el Cons.IH [of "Suc i" st1 t1] show ?thesis
      by (simp add: runElement_exitCode)
  next
    case (Some a)
    with el show ?thesis by (simp add: runElement_exitCode)
  qed
qed

lemma fold_skipOne_exitCode:
  "fold skipOne ss (st\<lparr>exitCode := c\<rparr>, t) =
     (case fold skipOne ss (st, t) of (st', t') \<Rightarrow> (st'\<lparr>exitCode := c\<rparr>, t'))"
  by (induction ss arbitrary: st t) (simp_all add: skipOne_apply log_exitCode)

lemma skipEach_exitCode:
  "skipEach n plan (st\<lparr>exitCode := c\<rparr>, t) =
     (case skipEach n plan (st, t) of (st', t') \<Rightarrow> (st'\<lparr>exitCode := c\<rparr>, t'))"
proof (induction plan arbitrary: n st t)
  case Nil
  show ?case by simp
next
  case (Cons el els)
  show ?case
  proof (cases el)
    case (Single s)
    with Cons.IH show ?thesis by (simp add: skipOne_apply log_exitCode)
  next
    case (Group g)
    obtain st1 t1 where f: "fold skipOne (drop n g) (st, t) = (st1, t1)"
      by (metis prod.exhaust)
    with Group Cons.IH [of 0 st1 t1] show ?thesis
      by (simp add: fold_skipOne_exitCode)
  qed
qed

lemma runScenario_exitCode:
  "\<exists>c'. runScenario E sc (st\<lparr>exitCode := c\<rparr>, ov) =
     (case runScenario E sc (st, ov) of (st', ov') \<Rightarrow> (st'\<lparr>exitCode := c'\<rparr>, ov'))"
proof -
  obtain st2 t2 r where m:
    "mapSeriesPlan E 0 (optimizedSteps sc) (log (scenarioHeader sc) st, newTimer) = ((st2, t2), r)"
    by (metis prod.exhaust)
  show ?thesis
  proof (cases r)
    case None
    with m show ?thesis
      by (auto simp: runScenario_def log_exitCode mapSeriesPlan_exitCode)
  next
    case (Some a)
    obtain k inner where a: "a = (k, inner)" by (cases a)
    obtain st3 t3 where s: "skipEach inner (drop k (optimizedSteps sc)) (st2, t2) = (st3, t3)"
      by (metis prod.exhaust)
    from m Some a s show ?thesis
      by (auto simp: runScenario_def log_exitCode mapSeriesPlan_exitCode skipEach_exitCode)
  qed
qed

lemma fold_runScenario_exitCode:
  "\<exists>c'. fold (runScenario E) scs (st\<lparr>exitCode := c\<rparr>, ov) =
     (case fold (runScenario E) scs (st, ov) of (st', ov') \<Rightarrow> (st'\<lparr>exitCode := c'\<rparr>, ov'))"
proof (induction scs arbitrary: st ov c)
  case Nil
  show ?case by auto
next
  case (Cons sc scs)
  obtain st1 ov1 where r: "runScenario E sc (st, ov) = (st1, ov1)" by (metis prod.exhaust)
  from runScenario_exitCode [where E = E and sc = sc and st = st and c = c and ov = ov] r
  obtain c1 where "runScenario E sc (st\<lparr>exitCode := c\<rparr>, ov) = (st1\<lparr>exitCode := c1\<rparr>, ov1)"
    by auto
  with Cons.IH [where st = st1 and c = c1 and ov = ov1] r show ?case by simp
qed

lemma runScenarios_out_exitCode:
  "out (fst (runScenarios E scs (st\<lparr>exitCode := c\<rparr>))) = out (fst (runScenarios E scs st)) \<and>
   snd (runScenarios E scs (st\<lparr>exitCode := c\<rparr>)) = snd (runScenarios E scs st)"
proof -
  obtain st1 ov1 where f: "fold (runScenario E) scs (st, newTimer) = (st1, ov1)"
    by (metis prod.exhaust)
  from fold_runScenario_exitCode [where E = E and scs = scs and st = st and c = c and ov = newTimer] f
  obtain c' where "fold (runScenario E) scs (st\<lparr>exitCode := c\<rparr>, newTimer) =
      (st1\<lparr>exitCode := c'\<rparr>, ov1)"
    by auto
  with f show ?thesis by (simp add: runScenarios_def)
qed

subsection \<open>Counting after an abort\<close>

text \<open>
  C1.  The claim: after a scenario aborts, passed + failed + skipped equals the step units
  of the scenario, and for the plan \<open>[A, B]\<close> where \<open>A\<close> fails the counters are passed 0,
  failed 1, skipped 1, only \<open>B\<close> being marked skipped.  The code does otherwise: the
  rejection carries the index of the failed element itself, and the skipping starts at
  that index, so a failed single step is counted as failed and again as skipped.  For
  \<open>[A, B]\<close> the Timer printed reads passed 0, failed 1, skipped 2 (three units for a plan
  of two), and both \<open>A\<close> and \<open>B\<close> are marked skipped.
\<close>

theorem failed_single_step_is_counted_twice:
  "planUnits [Single stepA, Single stepB] = 2 \<and>
   runStep (exampleEnv ''A'') [] stepA = Some RejectedOther \<and>
   printTimes (out (fst (runScenario (exampleEnv ''A'')
       (scenarioOf ''AB'' [Single stepA, Single stepB]) (initial, newTimer))))
     = [\<lparr>passed = 0, failed = 1, skipped = 2\<rparr>] \<and>
   map counted (printTimes (out (fst (runScenario (exampleEnv ''A'')
       (scenarioOf ''AB'' [Single stepA, Single stepB]) (initial, newTimer)))))
     = [3] \<and>
   skipMarks (out (fst (runScenario (exampleEnv ''A'')
       (scenarioOf ''AB'' [Single stepA, Single stepB]) (initial, newTimer))))
     = [stepText stepA, stepText stepB]"
  by (simp add: example_defs timer_defs run_defs counted_def)

text \<open>
  The general form of the defect: when the steps before a single step pass and the single
  step is rejected, the scenario Timer counts one unit more than the plan has.
\<close>

lemma abort_at_single_step_counts_one_too_many:
  assumes plan: "optimizedSteps sc = pre @ Single s # rest"
    and pre: "mapSeriesPlan E 0 pre (log (scenarioHeader sc) st, newTimer) = ((st1, t1), None)"
    and rej: "runStep E (invoked st1) s = Some RejectedOther"
  shows "printTimes (out (fst (runScenario E sc (st, ov)))) =
           printTimes (out st) @
             [\<lparr>passed = planUnits pre, failed = 1, skipped = 1 + planUnits rest\<rparr>]"
    and "planUnits (optimizedSteps sc) = planUnits pre + 1 + planUnits rest"
proof -
  let ?st2 = "st1\<lparr>invoked := invoked st1 @ [RunStep s], exitCode := Some 1\<rparr>"
  from mapSeriesPlan_resolved_timer [OF pre]
  have t1: "t1 = addPassedStep (planUnits pre) newTimer" .
  from mapSeriesPlan_frame [OF pre] have o1: "out st1 = out st @ [scenarioHeader sc]" by simp
  have m: "mapSeriesPlan E 0 (optimizedSteps sc) (log (scenarioHeader sc) st, newTimer) =
      ((?st2, addFailedStep 1 t1), Some (length pre, 0))"
    by (simp add: plan mapSeriesPlan_append pre rej catchStep_def innerIndexOf_def Let_def)
  obtain st3 t3 where s: "skipEach 0 (Single s # rest) (?st2, addFailedStep 1 t1) = (st3, t3)"
    by (metis prod.exhaust)
  from skipEach_zero_timer [OF s]
  have t3: "t3 = \<lparr>passed = planUnits pre, failed = 1, skipped = 1 + planUnits rest\<rparr>"
    by (simp add: t1 timer_defs)
  from skipEach_frame [OF s] o1 have o3: "printTimes (out st3) = printTimes (out st)"
    by simp
  from m s have "fst (runScenario E sc (st, ov)) = log (PrintTime t3) st3"
    by (simp add: runScenario_def plan)
  with o3 t3 show "printTimes (out (fst (runScenario E sc (st, ov)))) =
           printTimes (out st) @
             [\<lparr>passed = planUnits pre, failed = 1, skipped = 1 + planUnits rest\<rparr>]"
    by simp
  show "planUnits (optimizedSteps sc) = planUnits pre + 1 + planUnits rest"
    by (simp add: plan)
qed


subsection \<open>The plan and the merged runner step\<close>


lemma stepRunner_Cons:
  "ss \<noteq> [] \<Longrightarrow> stepRunner ss =
     Inr \<lparr>optCog = cog (hd ss),
          optProtoSteps = map (\<lambda>s. firstOf (protoSteps s)) ss,
          optStepText = map (\<lambda>s. firstOf (stepText s)) ss,
          optClient = client (hd ss),
          optWaitFor = map (\<lambda>s. first (waitFor s)) ss,
          optFailAfter = map (\<lambda>s. first (failAfter s)) ss\<rparr>"
  by (cases ss) simp_all











lemma runElement_group_invoked:
  "stepRunner step = Inr r \<Longrightarrow>
     invoked (fst (fst (runElement E index (Group step) (st, timer)))) =
       invoked st @ [RunSteps r]"
  by (simp add: Let_def catchStep_def split: option.splits)

lemma stepRunner_fields:
  assumes "stepRunner step = Inr r"
  shows "optProtoSteps r = map (\<lambda>s. firstOf (protoSteps s)) step"
    and "optStepText r = map (\<lambda>s. firstOf (stepText s)) step"
    and "optWaitFor r = map (\<lambda>s. first (waitFor s)) step"
    and "optFailAfter r = map (\<lambda>s. first (failAfter s)) step"
    and "optCog r = cog (hd step)" and "optClient r = client (hd step)"
  using assms by (cases step; auto)+

text \<open>
  C6.  For a group of N members (N > 0) the engine is called once, with a merged runner
  step that has N operation descriptors, N display texts, N \<open>waitFor\<close> and N \<open>failAfter\<close>
  entries; entry \<open>i\<close> of \<open>waitFor\<close> and \<open>failAfter\<close> is the first entry of member \<open>i\<close>'s own
  Array, which is the member's value when that Array has one entry.
\<close>

theorem merged_step_keeps_each_member:
  "step \<noteq> [] \<longrightarrow>
     (\<exists>r. stepRunner step = Inr r \<and>
        invoked (fst (fst (runElement E index (Group step) (st, timer)))) =
          invoked st @ [RunSteps r] \<and>
        length (optProtoSteps r) = length step \<and>
        length (optStepText r) = length step \<and>
        length (optWaitFor r) = length step \<and>
        length (optFailAfter r) = length step \<and>
        (\<forall>i<length step.
           optWaitFor r ! i = first (waitFor (step ! i)) \<and>
           optFailAfter r ! i = first (failAfter (step ! i)) \<and>
           (\<forall>w. waitFor (step ! i) = [w] \<longrightarrow> optWaitFor r ! i = Some w) \<and>
           (\<forall>d. failAfter (step ! i) = [d] \<longrightarrow> optFailAfter r ! i = Some d)))"
proof
  assume "step \<noteq> []"
  then obtain r where r: "stepRunner step = Inr r"
    by (cases step) simp_all
  note f = stepRunner_fields [OF r]
  have t: "\<forall>i<length step.
           optWaitFor r ! i = first (waitFor (step ! i)) \<and>
           optFailAfter r ! i = first (failAfter (step ! i)) \<and>
           (\<forall>w. waitFor (step ! i) = [w] \<longrightarrow> optWaitFor r ! i = Some w) \<and>
           (\<forall>d. failAfter (step ! i) = [d] \<longrightarrow> optFailAfter r ! i = Some d)"
    by (simp add: f(3,4))
  have l: "length (optProtoSteps r) = length step \<and>
        length (optStepText r) = length step \<and>
        length (optWaitFor r) = length step \<and>
        length (optFailAfter r) = length step"
    by (simp add: f(1-4))
  from r runElement_group_invoked [OF r, of E index st timer] l t
  show "\<exists>r. stepRunner step = Inr r \<and>
        invoked (fst (fst (runElement E index (Group step) (st, timer)))) =
          invoked st @ [RunSteps r] \<and>
        length (optProtoSteps r) = length step \<and>
        length (optStepText r) = length step \<and>
        length (optWaitFor r) = length step \<and>
        length (optFailAfter r) = length step \<and>
        (\<forall>i<length step.
           optWaitFor r ! i = first (waitFor (step ! i)) \<and>
           optFailAfter r ! i = first (failAfter (step ! i)) \<and>
           (\<forall>w. waitFor (step ! i) = [w] \<longrightarrow> optWaitFor r ! i = Some w) \<and>
           (\<forall>d. failAfter (step ! i) = [d] \<longrightarrow> optFailAfter r ! i = Some d))"
    by blast
qed

theorem merged_step_keeps_each_member_witness:
  "invoked (fst (fst (runElement (exampleEnv ''C'') 0 (Group [stepA, stepB, stepC])
       (initial, newTimer)))) =
     [RunSteps \<lparr>optCog = ''cog'', optProtoSteps = [Some 1, Some 2, Some 3],
                optStepText = [Some ''A'', Some ''B'', Some ''C''], optClient = 1,
                optWaitFor = [Some 0, Some 100, Some 0],
                optFailAfter = [Some 50, Some 150, Some 50]\<rparr>]"
proof -
  have r: "stepRunner [stepA, stepB, stepC] =
     Inr \<lparr>optCog = ''cog'', optProtoSteps = [Some 1, Some 2, Some 3],
                optStepText = [Some ''A'', Some ''B'', Some ''C''], optClient = 1,
                optWaitFor = [Some 0, Some 100, Some 0],
                optFailAfter = [Some 50, Some 150, Some 50]\<rparr>"
    by (simp add: stepC_def example_defs)
  have "[stepA, stepB, stepC] \<noteq> []" by simp
  with merged_step_keeps_each_member
         [of "[stepA, stepB, stepC]" "exampleEnv ''C''" 0 initial newTimer]
  obtain r' where r': "stepRunner [stepA, stepB, stepC] = Inr r'"
    and i: "invoked (fst (fst (runElement (exampleEnv ''C'') 0 (Group [stepA, stepB, stepC])
       (initial, newTimer)))) = invoked (initial :: (nat, nat) state) @ [RunSteps r']"
    by blast
  from r r' have "r' = \<lparr>optCog = ''cog'', optProtoSteps = [Some 1, Some 2, Some 3],
                optStepText = [Some ''A'', Some ''B'', Some ''C''], optClient = 1,
                optWaitFor = [Some 0, Some 100, Some 0],
                optFailAfter = [Some 50, Some 150, Some 50]\<rparr>"
    by simp
  with i show ?thesis by simp
qed

text \<open>
  C8.  The merged runner step of a group takes its connector and its client from the
  first member, whatever the other members carry, and it is the only thing the engine is
  called with for the group.
\<close>

theorem group_runs_through_first_member:
  "\<exists>r. stepRunner (s0 # ss) = Inr r \<and> optCog r = cog s0 \<and> optClient r = client s0 \<and>
       invoked (fst (fst (runElement E index (Group (s0 # ss)) (st, timer)))) =
         invoked st @ [RunSteps r]"
  by (simp add: Let_def catchStep_def split: option.splits)

theorem group_runs_through_first_member_witness:
  "client stepB = 2 \<and> client stepC = 3 \<and>
   (\<exists>r. invoked (fst (fst (runElement (exampleEnv ''C'') 0 (Group [stepA, stepB, stepC])
            (initial, newTimer)))) = [RunSteps r] \<and> optClient r = 1 \<and> optCog r = ''cog'')"
proof -
  from group_runs_through_first_member
          [of stepA "[stepB, stepC]" "exampleEnv ''C''" 0 initial newTimer]
  obtain r where "optCog r = cog stepA" "optClient r = client stepA"
    "invoked (fst (fst (runElement (exampleEnv ''C'') 0 (Group [stepA, stepB, stepC])
            (initial, newTimer)))) = invoked (initial :: (nat, nat) state) @ [RunSteps r]"
    by blast
  then have "invoked (fst (fst (runElement (exampleEnv ''C'') 0 (Group [stepA, stepB, stepC])
            (initial, newTimer)))) = [RunSteps r] \<and> optClient r = 1 \<and> optCog r = ''cog''"
    by (simp add: example_defs)
  then have "\<exists>r. invoked (fst (fst (runElement (exampleEnv ''C'') 0 (Group [stepA, stepB, stepC])
            (initial, newTimer)))) = [RunSteps r] \<and> optClient r = 1 \<and> optCog r = ''cog''"
    by (rule exI)
  moreover have "client stepB = 2 \<and> client stepC = 3"
    by (simp add: stepC_def example_defs)
  ultimately show ?thesis by blast
qed

subsection \<open>The overall Timer and the scenario Timers\<close>




subsection \<open>The exit code\<close>

text \<open>
  C4, as amended.  A setup error sets the exit code to 1 and \<open>run\<close> returns before any
  scenario is executed.  After a successful setup \<open>run\<close> returns normally; every scenario of
  the batch is executed, whatever failed before it: the calls made to the engine are those
  of walking every plan in turn up to its own first rejected element, one Timer is printed
  per scenario, and neither the calls nor the output depend on the exit code being set
  already.  The exit code is 1 exactly when some scenario aborted; without a failure it
  stays unset.  The plan element that fails sets the exit code to 1 at once, and a batch
  never clears an exit code that is set.
\<close>

theorem exit_flag_set_on_failure_and_batch_completes:
  "(trySetup E f (parseTokens toks) ssl initial = (Inl e, st1) \<longrightarrow>
      fst (run E toks ssl f initial) = None \<and>
      exitCode (snd (run E toks ssl f initial)) = Some 1 \<and>
      invoked (snd (run E toks ssl f initial)) = [] \<and>
      printTimes (out (snd (run E toks ssl f initial))) = []) \<and>
   (trySetup E f (parseTokens toks) ssl initial = (Inr scs, st2) \<and> coerceTypes E scs = None \<longrightarrow>
      fst (run E toks ssl f initial) = None \<and>
      exitCode (snd (run E toks ssl f initial)) =
        (if False \<in> set (completions E scs (st2, newTimer)) then Some 1 else None) \<and>
      length (printTimes (out (snd (run E toks ssl f initial)))) = length scs \<and>
      invoked (snd (run E toks ssl f initial)) = batchCalls E [] scs) \<and>
   (snd (runElement E i el (st, t)) \<noteq> None \<longrightarrow>
      exitCode (fst (fst (runElement E i el (st, t)))) = Some 1) \<and>
   (exitCode st = Some 1 \<longrightarrow> exitCode (fst (runScenarios E batch st)) = Some 1) \<and>
   length (printTimes (out (fst (runScenarios E batch st)))) =
     length (printTimes (out st)) + length batch \<and>
   invoked (fst (runScenarios E batch st)) = batchCalls E (invoked st) batch \<and>
   invoked (fst (runScenarios E batch (st\<lparr>exitCode := Some 1\<rparr>))) =
     invoked (fst (runScenarios E batch st)) \<and>
   out (fst (runScenarios E batch (st\<lparr>exitCode := Some 1\<rparr>))) =
     out (fst (runScenarios E batch st))"
proof -
  have 1: "trySetup E f (parseTokens toks) ssl initial = (Inl e, st1) \<longrightarrow>
      fst (run E toks ssl f initial) = None \<and>
      exitCode (snd (run E toks ssl f initial)) = Some 1 \<and>
      invoked (snd (run E toks ssl f initial)) = [] \<and>
      printTimes (out (snd (run E toks ssl f initial))) = []"
  proof
    assume s: "trySetup E f (parseTokens toks) ssl initial = (Inl e, st1)"
    from run_setup_failed [OF s] trySetup_frame [OF s] reportSetupError_frame [of e st1]
      reportSetupError_out [of e st1]
    show "fst (run E toks ssl f initial) = None \<and>
      exitCode (snd (run E toks ssl f initial)) = Some 1 \<and>
      invoked (snd (run E toks ssl f initial)) = [] \<and>
      printTimes (out (snd (run E toks ssl f initial))) = []"
      by simp
  qed
  have 2: "trySetup E f (parseTokens toks) ssl initial = (Inr scs, st2) \<and> coerceTypes E scs = None \<longrightarrow>
      fst (run E toks ssl f initial) = None \<and>
      exitCode (snd (run E toks ssl f initial)) =
        (if False \<in> set (completions E scs (st2, newTimer)) then Some 1 else None) \<and>
      length (printTimes (out (snd (run E toks ssl f initial)))) = length scs \<and>
      invoked (snd (run E toks ssl f initial)) = batchCalls E [] scs"
  proof (intro impI, elim conjE)
    assume s: "trySetup E f (parseTokens toks) ssl initial = (Inr scs, st2)"
      and c: "coerceTypes E scs = None"
    obtain st3 ov where b: "runScenarios E scs st2 = (st3, ov)" by (metis prod.exhaust)
    from run_setup_ok [OF s c] b have r: "run E toks ssl f initial = (None, st3)" by simp
    from runScenarios_invoked [of E scs st2] b trySetup_frame [OF s]
    have i: "invoked st3 = batchCalls E [] scs" by simp
    from runScenarios_result(2,3) [OF b] trySetup_frame [OF s] r i
    show "fst (run E toks ssl f initial) = None \<and>
      exitCode (snd (run E toks ssl f initial)) =
        (if False \<in> set (completions E scs (st2, newTimer)) then Some 1 else None) \<and>
      length (printTimes (out (snd (run E toks ssl f initial)))) = length scs \<and>
      invoked (snd (run E toks ssl f initial)) = batchCalls E [] scs"
      by simp
  qed
  obtain st4 t4 r4 where el: "runElement E i el (st, t) = ((st4, t4), r4)"
    by (metis prod.exhaust)
  have 3: "snd (runElement E i el (st, t)) \<noteq> None \<longrightarrow>
      exitCode (fst (fst (runElement E i el (st, t)))) = Some 1"
    using runElement_frame [OF el] el by simp
  obtain st5 ov5 where b: "runScenarios E batch st = (st5, ov5)" by (metis prod.exhaust)
  have 4: "exitCode st = Some 1 \<longrightarrow> exitCode (fst (runScenarios E batch st)) = Some 1"
    using runScenarios_result(2) [OF b] b by simp
  have 5: "length (printTimes (out (fst (runScenarios E batch st)))) =
     length (printTimes (out st)) + length batch"
    using runScenarios_result(3) [OF b] b by simp
  have 6: "invoked (fst (runScenarios E batch st)) = batchCalls E (invoked st) batch"
    by (rule runScenarios_invoked)
  have 7: "invoked (fst (runScenarios E batch (st\<lparr>exitCode := Some 1\<rparr>))) =
     invoked (fst (runScenarios E batch st))"
    by (simp add: runScenarios_invoked)
  have 8: "out (fst (runScenarios E batch (st\<lparr>exitCode := Some 1\<rparr>))) =
     out (fst (runScenarios E batch st))"
    by (simp add: runScenarios_out_exitCode)
  show ?thesis by (intro conjI 1 2 3 4 5 6 7 8)
qed

theorem exit_flag_set_on_failure_and_batch_completes_witness:
  "exitCode (snd (run (exampleEnv ''A'') [] True ''x'' initial)) = Some 1 \<and>
   invoked (snd (run (exampleEnv ''A'') [] True ''x'' initial)) = [] \<and>
   exitCode (snd (run (exampleEnv ''B'') [] False ''x'' initial)) = Some 1 \<and>
   exitCode (snd (run (exampleEnv ''C'') [] False ''x'' initial)) = None \<and>
   length (printTimes (out (snd (run (exampleEnv ''B'') [] False ''x'' initial)))) = 1 \<and>
   exitCode (fst (fst (runElement (exampleEnv ''B'') 0 (Single stepB) (initial, newTimer)))) = Some 1 \<and>
   exitCode (fst (runScenarios (exampleEnv ''B'') [scenarioG, scenarioH]
                (initial\<lparr>exitCode := Some 1\<rparr>))) = Some 1 \<and>
   length (printTimes (out (fst (runScenarios (exampleEnv ''B'') [scenarioG, scenarioH] initial)))) = 2 \<and>
   map callStepText (invoked (fst (runScenarios (exampleEnv ''B'') [scenarioG, scenarioH] initial))) =
     [[Some ''A''], [Some ''A'', Some ''B''], [Some ''A'', Some ''A''], [Some ''A'']] \<and>
   map callStepText (invoked (snd (run (exampleEnv ''B'') [] False ''x'' initial))) =
     [[Some ''A''], [Some ''B'']]"
proof -
  let ?S = "initial\<lparr>sessions := [\<lparr>sessionCog = ''cog'', stopsCleanly = False\<rparr>]\<rparr>
              :: (nat, nat) state"
  let ?AB = "scenarioOf ''x'' [Single stepA, Single stepB]"
  have a: "trySetup (exampleEnv ''A'') ''x'' (parseTokens []) True initial =
        (Inl (AuthenticationError ''Bad credentials'' (Some ''https://docs'')), ?S)"
    by (simp add: trySetup_def parseScenarioFiles_def example_defs)
  have b: "trySetup (exampleEnv ''B'') ''x'' (parseTokens []) False initial = (Inr [?AB], ?S)"
    by (simp add: trySetup_def parseScenarioFiles_def example_defs)
  have c: "trySetup (exampleEnv ''C'') ''x'' (parseTokens []) False initial = (Inr [?AB], ?S)"
    by (simp add: trySetup_def parseScenarioFiles_def example_defs)
  have cb: "coerceTypes (exampleEnv ''B'') [?AB] = None"
    by (simp add: coerceTypes_def coerceRunnerStep_def runnerSteps_def example_defs)
  have cc: "coerceTypes (exampleEnv ''C'') [?AB] = None"
    by (simp add: coerceTypes_def coerceRunnerStep_def runnerSteps_def example_defs)
  have fb: "completions (exampleEnv ''B'') [?AB] (?S, newTimer) = [False]"
    by (simp add: completes_def example_defs timer_defs run_defs)
  have fc: "completions (exampleEnv ''C'') [?AB] (?S, newTimer) = [True]"
    by (simp add: completes_def example_defs timer_defs run_defs)
  have el: "snd (runElement (exampleEnv ''B'') 0 (Single stepB) (initial, newTimer)) \<noteq> None"
    by (simp add: example_defs timer_defs run_defs)
  from exit_flag_set_on_failure_and_batch_completes
         [where E = "exampleEnv ''A''" and f = "''x''" and toks = "[]" and ssl = True
            and e = "AuthenticationError ''Bad credentials'' (Some ''https://docs'')"
            and ?st1.0 = ?S] a
  have 1: "exitCode (snd (run (exampleEnv ''A'') [] True ''x'' initial)) = Some 1 \<and>
     invoked (snd (run (exampleEnv ''A'') [] True ''x'' initial)) = []" by blast
  from exit_flag_set_on_failure_and_batch_completes
         [where E = "exampleEnv ''B''" and f = "''x''" and toks = "[]" and ssl = False
            and scs = "[?AB]" and ?st2.0 = ?S and i = 0 and el = "Single stepB"
            and st = initial and t = newTimer] b cb fb el
  have 2: "exitCode (snd (run (exampleEnv ''B'') [] False ''x'' initial)) = Some 1 \<and>
     length (printTimes (out (snd (run (exampleEnv ''B'') [] False ''x'' initial)))) = 1 \<and>
     exitCode (fst (fst (runElement (exampleEnv ''B'') 0 (Single stepB) (initial, newTimer)))) = Some 1 \<and>
     map callStepText (invoked (snd (run (exampleEnv ''B'') [] False ''x'' initial))) =
       [[Some ''A''], [Some ''B'']]"
    by (simp add: example_defs)
  from exit_flag_set_on_failure_and_batch_completes
         [where E = "exampleEnv ''C''" and f = "''x''" and toks = "[]" and ssl = False
            and scs = "[?AB]" and ?st2.0 = ?S] c cc fc
  have 3: "exitCode (snd (run (exampleEnv ''C'') [] False ''x'' initial)) = None" by simp
  from exit_flag_set_on_failure_and_batch_completes
         [where E = "exampleEnv ''B''" and batch = "[scenarioG, scenarioH]"
            and st = "initial\<lparr>exitCode := Some 1\<rparr>"]
  have 4: "exitCode (fst (runScenarios (exampleEnv ''B'') [scenarioG, scenarioH]
                (initial\<lparr>exitCode := Some 1\<rparr>))) = Some 1" by simp
  from exit_flag_set_on_failure_and_batch_completes
         [where E = "exampleEnv ''B''" and batch = "[scenarioG, scenarioH]" and st = initial]
  have 5: "length (printTimes (out (fst (runScenarios (exampleEnv ''B'') [scenarioG, scenarioH] initial)))) = 2"
    by simp
  from exit_flag_set_on_failure_and_batch_completes
         [where E = "exampleEnv ''B''" and batch = "[scenarioG, scenarioH]" and st = initial]
  have 6: "map callStepText (invoked (fst (runScenarios (exampleEnv ''B'') [scenarioG, scenarioH] initial))) =
     [[Some ''A''], [Some ''A'', Some ''B''], [Some ''A'', Some ''A''], [Some ''A'']]"
    by (simp add: scenarioG_def scenarioH_def example_defs)
  from 1 2 3 4 5 6 show ?thesis by blast
qed

text \<open>
  C4 as the claim states it lets every remaining scenario of the batch execute after any
  failure, a setup error included.  Here the scenario file is parsed into one scenario,
  attaching the clients throws, the exit code is set, and the scenario is never executed:
  no step reaches the engine and no scenario Timer is printed.
\<close>

theorem setup_error_leaves_the_batch_unexecuted:
  "parseScenarioFiles (exampleEnv ''A'') ''x'' (parseTokens []) =
     Inr [scenarioOf ''x'' [Single stepA, Single stepB]] \<and>
   fst (decorateStepsWithClients (exampleEnv ''A'') [stepA, stepB] True) =
     Some (AuthenticationError ''Bad credentials'' (Some ''https://docs'')) \<and>
   exitCode (snd (run (exampleEnv ''A'') [] True ''x'' initial)) = Some 1 \<and>
   invoked (snd (run (exampleEnv ''A'') [] True ''x'' initial)) = [] \<and>
   printTimes (out (snd (run (exampleEnv ''A'') [] True ''x'' initial))) = []"
  by (simp add: run_def trySetup_def parseScenarioFiles_def reportSetupError_def truthy_def
        example_defs run_defs)

subsection \<open>Errors of the setup stage\<close>

text \<open>
  C5.  When parsing the scenarios or attaching the clients throws, the run returns
  without running anything: no call reaches the step execution engine and no scenario
  Timer is printed.  The error is reported once, under the line \<open>Error running scenario:\<close>,
  followed by the hints of lines 187-199: the help URL of an \<open>AuthenticationError\<close> when it
  has one, and the command that lists the steps for a \<open>MissingStepError\<close>.  The exit code
  is set to 1.
\<close>

theorem setup_error_aborts_the_batch:
  assumes "trySetup E f (parseTokens toks) ssl initial = (Inl e, st1)"
  shows "fst (run E toks ssl f initial) = None \<and>
         invoked (snd (run E toks ssl f initial)) = [] \<and>
         printTimes (out (snd (run E toks ssl f initial))) = [] \<and>
         exitCode (snd (run E toks ssl f initial)) = Some 1 \<and>
         out (snd (run E toks ssl f initial)) =
           [Line [], Line ''Error running scenario:'', Line (''  '' @ toString e)]
             @ remediation e"
  using run_setup_failed [OF assms] trySetup_frame [OF assms]
    reportSetupError_frame [of e st1] reportSetupError_out [of e st1]
  by simp

theorem setup_error_aborts_the_batch_witness:
  "invoked (snd (run (exampleEnv ''A'') [] True ''x'' initial)) = [] \<and>
   printTimes (out (snd (run (exampleEnv ''A'') [] True ''x'' initial))) = [] \<and>
   exitCode (snd (run (exampleEnv ''A'') [] True ''x'' initial)) = Some 1 \<and>
   out (snd (run (exampleEnv ''A'') [] True ''x'' initial)) =
     [Line [], Line ''Error running scenario:'', Line ''  Bad credentials'', Line [],
      Line ''Relevant authentication docs for your reference:'',
      Url ''https://docs'' ''https://docs''] \<and>
   out (snd (run (exampleEnv ''A'') [] False ''missing'' initial)) =
     [Line [], Line ''Error running scenario:'', Line ''  Missing step definition'', Line [],
      Line ''Run the following to list available steps'', Line ''  crank registry:steps'']"
proof -
  have a: "trySetup (exampleEnv ''A'') ''x'' (parseTokens []) True initial =
        (Inl (AuthenticationError ''Bad credentials'' (Some ''https://docs'')),
         initial\<lparr>sessions := [\<lparr>sessionCog = ''cog'', stopsCleanly = False\<rparr>]\<rparr>)"
    by (simp add: trySetup_def parseScenarioFiles_def example_defs)
  have b: "trySetup (exampleEnv ''A'') ''missing'' (parseTokens []) False initial =
        (Inl (MissingStepError ''Missing step definition''), initial)"
    by (simp add: trySetup_def parseScenarioFiles_def example_defs)
  from setup_error_aborts_the_batch [OF a] setup_error_aborts_the_batch [OF b]
  show ?thesis by simp
qed

subsection \<open>Teardown\<close>

lemma run_stopAllCogsCalls:
  "stopAllCogsCalls (snd (run E toks ssl f st)) = stopAllCogsCalls st"
proof -
  obtain x st1 where s: "trySetup E f (parseTokens toks) ssl st = (x, st1)"
    by (metis prod.exhaust)
  note fr = trySetup_frame [OF s]
  show ?thesis
  proof (cases x)
    case (Inl e)
    with s fr reportSetupError_frame [of e st1] show ?thesis
      by (simp add: run_def)
  next
    case (Inr scs)
    obtain st2 ov where b: "runScenarios E scs st1 = (st2, ov)" by (metis prod.exhaust)
    from Inr s fr b runScenarios_result(5) [OF b] show ?thesis
      by (simp add: run_def split: option.splits)
  qed
qed

text \<open>
  C7.  Whatever \<open>run\<close> does (it completes, a step fails, or an error leaves it uncaught),
  \<open>stopAllCogs\<close> is called exactly once, after \<open>run\<close>; no session is left, the teardown
  throws nothing of its own (the result of the command is the result of \<open>run\<close>) and leaves
  the exit code as \<open>run\<close> set it, also when a session does not stop cleanly.
\<close>

theorem teardown_runs_once_on_every_exit:
  "stopAllCogsCalls (snd (runCommand E toks ssl f)) = 1 \<and>
   sessions (snd (runCommand E toks ssl f)) = [] \<and>
   fst (runCommand E toks ssl f) = fst (run E toks ssl f initial) \<and>
   exitCode (snd (runCommand E toks ssl f)) = exitCode (snd (run E toks ssl f initial)) \<and>
   invoked (snd (runCommand E toks ssl f)) = invoked (snd (run E toks ssl f initial))"
proof -
  obtain err st where r: "run E toks ssl f initial = (err, st)" by (metis prod.exhaust)
  with run_stopAllCogsCalls [of E toks ssl f initial] show ?thesis
    by (simp add: runCommand_def finally_hook_def stopAllCogs_def)
qed

theorem teardown_runs_once_on_every_exit_witness:
  "runCommand (exampleEnv ''C'') [] False ''x'' =
     (None, \<lparr>exitCode = None,
             out = [scenarioHeader (scenarioOf ''x'' [Single stepA, Single stepB]),
                    PrintTime \<lparr>passed = 2, failed = 0, skipped = 0\<rparr>, TeardownWarning ''cog''],
             invoked = [RunStep stepA, RunStep stepB], sessions = [], stopAllCogsCalls = 1\<rparr>) \<and>
   stopAllCogsCalls (snd (runCommand (exampleEnv ''A'') [] False ''x'')) = 1 \<and>
   exitCode (snd (runCommand (exampleEnv ''A'') [] False ''x'')) = Some 1 \<and>
   runCommand (exampleEnv ''A'') [] False ''odd'' =
     (Some (TypeError ''runnerStep.protoSteps.forEach is not a function''),
      \<lparr>exitCode = None, out = [TeardownWarning ''cog''], invoked = [], sessions = [],
       stopAllCogsCalls = 1\<rparr>)"
proof -
  have 1: "run (exampleEnv ''C'') [] False ''x'' initial =
     (None, \<lparr>exitCode = None,
             out = [scenarioHeader (scenarioOf ''x'' [Single stepA, Single stepB]),
                    PrintTime \<lparr>passed = 2, failed = 0, skipped = 0\<rparr>],
             invoked = [RunStep stepA, RunStep stepB],
             sessions = [\<lparr>sessionCog = ''cog'', stopsCleanly = False\<rparr>], stopAllCogsCalls = 0\<rparr>)"
    by (simp add: run_def trySetup_def parseScenarioFiles_def coerceTypes_def
          coerceRunnerStep_def runScenarios_def example_defs timer_defs run_defs)
  have 2: "exitCode (snd (run (exampleEnv ''A'') [] False ''x'' initial)) = Some 1"
    by (simp add: run_def trySetup_def parseScenarioFiles_def coerceTypes_def
          coerceRunnerStep_def runScenarios_def example_defs timer_defs run_defs)
  have 3: "run (exampleEnv ''A'') [] False ''odd'' initial =
     (Some (TypeError ''runnerStep.protoSteps.forEach is not a function''),
      \<lparr>exitCode = None, out = [], invoked = [],
       sessions = [\<lparr>sessionCog = ''cog'', stopsCleanly = False\<rparr>], stopAllCogsCalls = 0\<rparr>)"
    by (simp add: run_def trySetup_def parseScenarioFiles_def coerceTypes_def
          coerceRunnerStep_def runScenarios_def example_defs timer_defs run_defs)
  have 4: "stopAllCogsCalls (snd (runCommand (exampleEnv ''A'') [] False ''x'')) = 1 \<and>
     exitCode (snd (runCommand (exampleEnv ''A'') [] False ''x'')) = Some 1"
    using teardown_runs_once_on_every_exit [of "exampleEnv ''A''" "[]" False "''x''"] 2
    by simp
  have 5: "runCommand (exampleEnv ''C'') [] False ''x'' =
     (None, \<lparr>exitCode = None,
             out = [scenarioHeader (scenarioOf ''x'' [Single stepA, Single stepB]),
                    PrintTime \<lparr>passed = 2, failed = 0, skipped = 0\<rparr>, TeardownWarning ''cog''],
             invoked = [RunStep stepA, RunStep stepB], sessions = [], stopAllCogsCalls = 1\<rparr>)"
    using 1 by (simp add: runCommand_def finally_hook_def stopAllCogs_def)
  have 6: "runCommand (exampleEnv ''A'') [] False ''odd'' =
     (Some (TypeError ''runnerStep.protoSteps.forEach is not a function''),
      \<lparr>exitCode = None, out = [TeardownWarning ''cog''], invoked = [], sessions = [],
       stopAllCogsCalls = 1\<rparr>)"
    using 3 by (simp add: runCommand_def finally_hook_def stopAllCogs_def)
  from 4 5 6 show ?thesis by blast
qed

subsection \<open>Token flags\<close>

lemma splitAll_not_Nil [simp]: "splitAll c s \<noteq> []"
  by (induction s) (auto split: list.splits)

lemma splitAll_pieces:
  "splitAll c s = takeWhile (\<lambda>x. x \<noteq> c) s #
     (if c \<in> set s then splitAll c (drop 1 (dropWhile (\<lambda>x. x \<noteq> c) s)) else [])"
proof (induction s)
  case Nil
  show ?case by simp
next
  case (Cons x xs)
  show ?case
  proof (cases "x = c")
    case True
    then show ?thesis by simp
  next
    case False
    with Cons.IH show ?thesis by (cases "c \<in> set xs") auto
  qed
qed

lemma hd_splitAll: "hd (splitAll c s) = takeWhile (\<lambda>x. x \<noteq> c) s"
  by (subst splitAll_pieces) simp

lemma split_first: "at (split c 2 s) 0 = Some (takeWhile (\<lambda>x. x \<noteq> c) s)"
  unfolding at_def split_def by (subst splitAll_pieces) simp

lemma split_second:
  "at (split c 2 s) (Suc 0) =
     (if c \<in> set s
      then Some (takeWhile (\<lambda>x. x \<noteq> c) (drop 1 (dropWhile (\<lambda>x. x \<noteq> c) s)))
      else None)"
proof (cases "c \<in> set s")
  case True
  obtain p ps where p: "splitAll c (drop 1 (dropWhile (\<lambda>x. x \<noteq> c) s)) = p # ps"
    by (cases "splitAll c (drop 1 (dropWhile (\<lambda>x. x \<noteq> c) s))") simp_all
  from hd_splitAll [of c "drop 1 (dropWhile (\<lambda>x. x \<noteq> c) s)"] p
  have "p = takeWhile (\<lambda>x. x \<noteq> c) (drop 1 (dropWhile (\<lambda>x. x \<noteq> c) s))" by simp
  with True p splitAll_pieces [of c s]
  have "splitAll c s = takeWhile (\<lambda>x. x \<noteq> c) s # p # ps" by simp
  with True \<open>p = _\<close> show ?thesis by (simp add: at_def split_def)
next
  case False
  then show ?thesis
    unfolding at_def split_def by (subst splitAll_pieces) simp
qed

lemma rawValue_needs_separator: "CHR ''='' \<notin> set token \<Longrightarrow> rawValue token = []"
proof -
  assume "CHR ''='' \<notin> set token"
  then have "dropWhile (\<lambda>c. c \<noteq> CHR ''='') token = []"
    by (auto simp: dropWhile_eq_Nil_conv)
  then show ?thesis
    by (simp add: rawValue_def rawRemainder_def del: dropWhile_eq_Nil_conv)
qed

lemma parseToken_eq:
  "parseToken tokens token =
     (if rawName token \<noteq> [] \<and> rawValue token \<noteq> []
      then assign tokens (rawName token) (rawValue token) else tokens)"
  using rawValue_needs_separator [of token]
  by (auto simp: parseToken_def Let_def split_first split_second truthy_def rawName_def
        rawValue_def rawRemainder_def)

lemma parseToken_lookup:
  "parseToken tokens token k =
     (if stored token \<and> rawName token = k then Some (rawValue token) else tokens k)"
  by (auto simp: parseToken_eq assign_def stored_def)

lemma forEachToken_lookup:
  "forEachToken tokens ts k =
     (case filter (\<lambda>t. stored t \<and> rawName t = k) ts of
        [] \<Rightarrow> tokens k
      | f # fs \<Rightarrow> Some (rawValue (last (f # fs))))"
proof (induction ts arbitrary: tokens)
  case Nil
  show ?case by simp
next
  case (Cons t ts)
  show ?case
    by (simp add: Cons.IH parseToken_lookup split: list.splits)
qed

lemma forEachToken_append:
  "forEachToken tokens (ts @ us) = forEachToken (forEachToken tokens ts) us"
  by (induction ts arbitrary: tokens) simp_all

text \<open>
  C9, as amended.  \<open>parseTokens\<close> has an entry for a name exactly when some raw value has
  that name, not empty and other than \<open>__proto__\<close>, before its first \<open>=\<close> and a value that is
  not empty between its first \<open>=\<close> and the next \<open>=\<close> (or the end).  The entry holds the value
  of the last such raw value, so a later one overrides an earlier one, and the value ends
  before the second \<open>=\<close>.  A raw value without \<open>=\<close> stores nothing.
\<close>

theorem parseTokens_entries:
  "parseTokens ts k =
     (case filter (\<lambda>t. stored t \<and> rawName t = k) ts of
        [] \<Rightarrow> None
      | f # fs \<Rightarrow> Some (rawValue (last (f # fs)))) \<and>
   (parseTokens ts k \<noteq> None) = (\<exists>t \<in> set ts. stored t \<and> rawName t = k) \<and>
   (stored t \<longrightarrow> parseTokens (ts @ [t]) (rawName t) = Some (rawValue t)) \<and>
   (CHR ''='' \<notin> set t \<longrightarrow> \<not> stored t)"
proof -
  have 1: "parseTokens ts k =
     (case filter (\<lambda>t. stored t \<and> rawName t = k) ts of
        [] \<Rightarrow> None
      | f # fs \<Rightarrow> Some (rawValue (last (f # fs))))" for ts k
    by (simp add: parseTokens_def forEachToken_lookup)
  have "(parseTokens ts k \<noteq> None) = (filter (\<lambda>t. stored t \<and> rawName t = k) ts \<noteq> [])"
    by (simp add: 1 split: list.splits)
  then have 2: "(parseTokens ts k \<noteq> None) = (\<exists>t \<in> set ts. stored t \<and> rawName t = k)"
    by (simp add: filter_empty_conv)
  have 3: "stored t \<longrightarrow> parseTokens (ts @ [t]) (rawName t) = Some (rawValue t)"
    by (simp add: parseTokens_def forEachToken_append parseToken_lookup)
  have 4: "CHR ''='' \<notin> set t \<longrightarrow> \<not> stored t"
    by (simp add: stored_def rawValue_needs_separator)
  from 1 [of ts k] 2 3 4 show ?thesis by blast
qed

theorem parseTokens_entries_witness:
  "parseTokens [''a=b'', ''a==b'', ''x=1=2'', ''=v'', ''n='', ''plain'', ''a=c'', ''__proto__=p''] ''a''
     = Some ''c'' \<and>
   parseTokens [''a=b'', ''a==b'', ''x=1=2'', ''=v'', ''n='', ''plain'', ''a=c'', ''__proto__=p''] ''x''
     = Some ''1'' \<and>
   parseTokens [''a=b'', ''a==b'', ''x=1=2'', ''=v'', ''n='', ''plain'', ''a=c'', ''__proto__=p''] ''n''
     = None \<and>
   parseTokens [''a=b'', ''a==b'', ''x=1=2'', ''=v'', ''n='', ''plain'', ''a=c'', ''__proto__=p''] ''plain''
     = None \<and>
   parseTokens [''a=b'', ''a==b'', ''x=1=2'', ''=v'', ''n='', ''plain'', ''a=c'', ''__proto__=p''] []
     = None \<and>
   parseTokens [''a=b'', ''a==b'', ''x=1=2'', ''=v'', ''n='', ''plain'', ''a=c'', ''__proto__=p''] ''__proto__''
     = None \<and>
   parseTokens ([''a=b''] @ [''a=c'']) (rawName ''a=c'') = Some ''c'' \<and>
   \<not> stored ''plain''"
proof -
  let ?ts = "[''a=b'', ''a==b'', ''x=1=2'', ''=v'', ''n='', ''plain'', ''a=c'', ''__proto__=p'']"
  have s: "stored ''a=c''" "CHR ''='' \<notin> set ''plain''"
    by (simp_all add: stored_def rawName_def rawValue_def rawRemainder_def)
  from parseTokens_entries [of ?ts "''a''"] parseTokens_entries [of ?ts "''x''"]
    parseTokens_entries [of ?ts "''n''"] parseTokens_entries [of ?ts "''plain''"]
    parseTokens_entries [of ?ts "[]"] parseTokens_entries [of ?ts "''__proto__''"]
    parseTokens_entries [of "[''a=b'']" "''a''" "''a=c''"]
    parseTokens_entries [of "[]" "[]" "''plain''"] s
  show ?thesis
    by (simp add: stored_def rawName_def rawValue_def rawRemainder_def)
qed

text \<open>
  C9 as the claim states it says that an entry exists exactly when the name before the
  first \<open>=\<close> and the remainder after it are not empty.  For \<open>a==b\<close> both are not empty (the
  remainder is \<open>=b\<close>), yet no entry is stored: the value ends before the second \<open>=\<close> and is
  empty.  For \<open>__proto__=x\<close> both are not empty as well, and no entry is stored either.
\<close>

theorem parseTokens_drops_value_starting_with_separator:
  "\<not> ((parseTokens [''a==b''] (rawName ''a==b'') \<noteq> None) =
       (rawName ''a==b'' \<noteq> [] \<and> rawRemainder ''a==b'' \<noteq> [])) \<and>
   \<not> ((parseTokens [''__proto__=x''] (rawName ''__proto__=x'') \<noteq> None) =
       (rawName ''__proto__=x'' \<noteq> [] \<and> rawRemainder ''__proto__=x'' \<noteq> []))"
  by (simp add: parseTokens_def parseToken_def split_def at_def truthy_def rawName_def
        rawRemainder_def assign_def)

subsection \<open>Directories without scenario files\<close>

text \<open>
  C10.  For a path that is a directory in which the glob \<open>**/*.crank.yml\<close> finds no file,
  \<open>parseScenarioFiles\<close> throws \<open>No .crank.yml files found in ...\<close>; \<open>run\<close> reports that
  error, sets the exit code to 1 and executes no step.  A path that is not a directory
  (also one that \<open>lstatSync\<close> cannot read) is handed, as it is, to one \<open>Scenario\<close>
  constructor, and the result is that single scenario or the constructor's error.
\<close>

theorem empty_directory_is_a_setup_error:
  fixes E :: "('p, 'c) env"
  shows "(lstatIsDirectory E p = Inr True \<and> globSync E (windowsSafeGlob p @ ''/**/*.crank.yml'') = [] \<longrightarrow>
      parseScenarioFiles E p tokens = Inl (Error (''No .crank.yml files found in '' @ p)) \<and>
      fst (run E toks ssl p initial) = None \<and>
      exitCode (snd (run E toks ssl p initial)) = Some 1 \<and>
      invoked (snd (run E toks ssl p initial)) = [] \<and>
      out (snd (run E toks ssl p initial)) =
        [Line [], Line ''Error running scenario:'',
         Line (''  Error: No .crank.yml files found in '' @ p)]) \<and>
   (lstatIsDirectory E p \<noteq> Inr True \<longrightarrow>
      parseScenarioFiles E p tokens =
        (case newScenario E p tokens of Inl e \<Rightarrow> Inl e | Inr s \<Rightarrow> Inr [s]))"
proof -
  have 1: "lstatIsDirectory E p = Inr True \<and> globSync E (windowsSafeGlob p @ ''/**/*.crank.yml'') = []
      \<longrightarrow> parseScenarioFiles E p tokens = Inl (Error (''No .crank.yml files found in '' @ p))"
    for tokens
    by (simp add: parseScenarioFiles_def)
  have 2: "lstatIsDirectory E p \<noteq> Inr True \<longrightarrow>
      parseScenarioFiles E p tokens =
        (case newScenario E p tokens of Inl e \<Rightarrow> Inl e | Inr s \<Rightarrow> Inr [s])"
    by (auto simp: parseScenarioFiles_def split: sum.splits)
  have 3: "lstatIsDirectory E p = Inr True \<and> globSync E (windowsSafeGlob p @ ''/**/*.crank.yml'') = []
      \<longrightarrow> fst (run E toks ssl p initial) = None \<and>
      exitCode (snd (run E toks ssl p initial)) = Some 1 \<and>
      invoked (snd (run E toks ssl p initial)) = [] \<and>
      out (snd (run E toks ssl p initial)) =
        [Line [], Line ''Error running scenario:'',
         Line (''  Error: No .crank.yml files found in '' @ p)]"
  proof (intro impI)
    define m where "m = ''No .crank.yml files found in '' @ p"
    let ?i = "initial :: ('p, 'c) state"
    assume a: "lstatIsDirectory E p = Inr True \<and>
      globSync E (windowsSafeGlob p @ ''/**/*.crank.yml'') = []"
    with 1 [of "parseTokens toks"]
    have s: "trySetup E p (parseTokens toks) ssl initial = (Inl (Error m), initial)"
      by (simp add: trySetup_def m_def)
    have t: "''  '' @ toString (Error m) = ''  Error: No .crank.yml files found in '' @ p"
      by (simp add: m_def)
    have r: "remediation (Error m) = []" by simp
    from run_setup_failed [OF s] reportSetupError_frame [of "Error m" ?i]
    have "fst (run E toks ssl p initial) = None \<and>
      exitCode (snd (run E toks ssl p initial)) = Some 1 \<and>
      invoked (snd (run E toks ssl p initial)) = []"
      by simp
    moreover from run_setup_failed [OF s] reportSetupError_out [of "Error m" ?i]
    have "out (snd (run E toks ssl p initial)) =
        [Line [], Line ''Error running scenario:'',
         Line (''  Error: No .crank.yml files found in '' @ p)]"
      unfolding t r by simp
    ultimately show "fst (run E toks ssl p initial) = None \<and>
      exitCode (snd (run E toks ssl p initial)) = Some 1 \<and>
      invoked (snd (run E toks ssl p initial)) = [] \<and>
      out (snd (run E toks ssl p initial)) =
        [Line [], Line ''Error running scenario:'',
         Line (''  Error: No .crank.yml files found in '' @ p)]"
      by blast
  qed
  from 1 [of tokens] 2 3 show ?thesis by blast
qed

theorem empty_directory_is_a_setup_error_witness:
  "parseScenarioFiles (exampleEnv ''A'') ''dir'' Map.empty =
     Inl (Error ''No .crank.yml files found in dir'') \<and>
   exitCode (snd (run (exampleEnv ''A'') [] False ''dir'' initial)) = Some 1 \<and>
   invoked (snd (run (exampleEnv ''A'') [] False ''dir'' initial)) = [] \<and>
   out (snd (run (exampleEnv ''A'') [] False ''dir'' initial)) =
     [Line [], Line ''Error running scenario:'',
      Line ''  Error: No .crank.yml files found in dir''] \<and>
   parseScenarioFiles (exampleEnv ''A'') ''x'' Map.empty =
     Inr [scenarioOf ''x'' [Single stepA, Single stepB]] \<and>
   parseScenarioFiles (exampleEnv ''A'') ''missing'' Map.empty =
     Inl (MissingStepError ''Missing step definition'')"
proof -
  have d: "lstatIsDirectory (exampleEnv ''A'') ''dir'' = Inr True \<and>
     globSync (exampleEnv ''A'') (windowsSafeGlob ''dir'' @ ''/**/*.crank.yml'') = []"
    by (simp add: example_defs)
  have x: "lstatIsDirectory (exampleEnv ''A'') ''x'' \<noteq> Inr True"
    by (simp add: example_defs)
  have m: "lstatIsDirectory (exampleEnv ''A'') ''missing'' \<noteq> Inr True"
    by (simp add: example_defs)
  from empty_directory_is_a_setup_error
         [of "exampleEnv ''A''" "''dir''" Map.empty "[]" False] d
  have 1: "parseScenarioFiles (exampleEnv ''A'') ''dir'' Map.empty =
     Inl (Error ''No .crank.yml files found in dir'') \<and>
   exitCode (snd (run (exampleEnv ''A'') [] False ''dir'' initial)) = Some 1 \<and>
   invoked (snd (run (exampleEnv ''A'') [] False ''dir'' initial)) = [] \<and>
   out (snd (run (exampleEnv ''A'') [] False ''dir'' initial)) =
     [Line [], Line ''Error running scenario:'',
      Line ''  Error: No .crank.yml files found in dir'']"
    by simp
  from empty_directory_is_a_setup_error
         [of "exampleEnv ''A''" "''x''" Map.empty "[]" False] x
  have 2: "parseScenarioFiles (exampleEnv ''A'') ''x'' Map.empty =
     Inr [scenarioOf ''x'' [Single stepA, Single stepB]]"
    by (simp add: example_defs)
  from empty_directory_is_a_setup_error
         [of "exampleEnv ''A''" "''missing''" Map.empty "[]" False] m
  have 3: "parseScenarioFiles (exampleEnv ''A'') ''missing'' Map.empty =
     Inl (MissingStepError ''Missing step definition'')"
    by (simp add: example_defs)
  from 1 2 3 show ?thesis by blast
qed

end
